theory Spec2Isabelle
  imports Complex_Main "HOL-Library.Multiset"
begin

section \<open>Numbers, values and errors\<close>

text \<open>
  The program computes with NumPy double-precision arrays. A number is modelled as a
  finite real or one of the three IEEE special values. The elementwise operations below
  propagate infinities and NaN as IEEE arithmetic does; on finite operands they are
  exact, so the rounding and the overflow of a single operation are not part of the
  model. The reductions \<open>np.sum\<close> and \<open>ndarray.mean\<close> are not defined here: NumPy
  accumulates them in double precision in an order of its own choice, and they are
  functions of the environment (see \<open>env\<close>), of which nothing is assumed.
\<close>

datatype fl = Fin real | PInf | NInf | NaN

fun isnan :: "fl \<Rightarrow> bool" where
  "isnan NaN = True"
| "isnan _ = False"

fun isinf :: "fl \<Rightarrow> bool" where
  "isinf PInf = True"
| "isinf NInf = True"
| "isinf _ = False"

fun isfinite :: "fl \<Rightarrow> bool" where
  "isfinite (Fin _) = True"
| "isfinite _ = False"

fun fneg :: "fl \<Rightarrow> fl" where
  "fneg (Fin a) = Fin (- a)"
| "fneg PInf = NInf"
| "fneg NInf = PInf"
| "fneg NaN = NaN"

fun fadd :: "fl \<Rightarrow> fl \<Rightarrow> fl" where
  "fadd NaN _ = NaN"
| "fadd _ NaN = NaN"
| "fadd (Fin a) (Fin b) = Fin (a + b)"
| "fadd PInf NInf = NaN"
| "fadd NInf PInf = NaN"
| "fadd PInf _ = PInf"
| "fadd _ PInf = PInf"
| "fadd NInf _ = NInf"
| "fadd _ NInf = NInf"

definition fsub :: "fl \<Rightarrow> fl \<Rightarrow> fl" where
  "fsub a b = fadd a (fneg b)"

text \<open>The sign of a product or quotient with an infinite operand.\<close>

definition signed_inf :: "bool \<Rightarrow> fl" where
  "signed_inf positive = (if positive then PInf else NInf)"

fun fmul :: "fl \<Rightarrow> fl \<Rightarrow> fl" where
  "fmul NaN _ = NaN"
| "fmul _ NaN = NaN"
| "fmul (Fin a) (Fin b) = Fin (a * b)"
| "fmul (Fin a) PInf = (if a = 0 then NaN else signed_inf (0 < a))"
| "fmul (Fin a) NInf = (if a = 0 then NaN else signed_inf (a < 0))"
| "fmul PInf (Fin b) = (if b = 0 then NaN else signed_inf (0 < b))"
| "fmul NInf (Fin b) = (if b = 0 then NaN else signed_inf (b < 0))"
| "fmul PInf PInf = PInf"
| "fmul NInf NInf = PInf"
| "fmul PInf NInf = NInf"
| "fmul NInf PInf = NInf"

text \<open>
  NumPy division never raises: a finite nonzero number over zero is an infinity, zero
  over zero is NaN. (The sign of a zero is not modelled; a zero denominator counts as
  positive zero, which is what a sum of squares produces.)
\<close>

fun fdiv :: "fl \<Rightarrow> fl \<Rightarrow> fl" where
  "fdiv NaN _ = NaN"
| "fdiv _ NaN = NaN"
| "fdiv (Fin a) (Fin b) =
     (if b = 0 then (if a = 0 then NaN else signed_inf (0 < a)) else Fin (a / b))"
| "fdiv (Fin a) PInf = Fin 0"
| "fdiv (Fin a) NInf = Fin 0"
| "fdiv PInf (Fin b) = signed_inf (0 \<le> b)"
| "fdiv NInf (Fin b) = signed_inf (b < 0)"
| "fdiv PInf PInf = NaN"
| "fdiv PInf NInf = NaN"
| "fdiv NInf PInf = NaN"
| "fdiv NInf NInf = NaN"

fun fsqrt :: "fl \<Rightarrow> fl" where
  "fsqrt (Fin a) = (if a < 0 then NaN else Fin (sqrt a))"
| "fsqrt PInf = PInf"
| "fsqrt NInf = NaN"
| "fsqrt NaN = NaN"

fun fabs :: "fl \<Rightarrow> fl" where
  "fabs (Fin a) = Fin \<bar>a\<bar>"
| "fabs PInf = PInf"
| "fabs NInf = PInf"
| "fabs NaN = NaN"

text \<open>The comparison \<open><\<close> of floats: false whenever an operand is NaN.\<close>

fun fless :: "fl \<Rightarrow> fl \<Rightarrow> bool" where
  "fless NaN _ = False"
| "fless _ NaN = False"
| "fless (Fin a) (Fin b) = (a < b)"
| "fless (Fin a) PInf = True"
| "fless (Fin a) NInf = False"
| "fless PInf _ = False"
| "fless NInf NInf = False"
| "fless NInf _ = True"

text \<open>\<open>np.maximum\<close> and \<open>np.minimum\<close>: NaN propagates.\<close>

definition np_maximum :: "fl \<Rightarrow> fl \<Rightarrow> fl" where
  "np_maximum a b = (if isnan a then a else if isnan b then b else if fless a b then b else a)"

definition np_minimum :: "fl \<Rightarrow> fl \<Rightarrow> fl" where
  "np_minimum a b = (if isnan a then a else if isnan b then b else if fless b a then b else a)"

text \<open>
  Python values as far as the fit stores them on an instance: \<open>None\<close>, a boolean, a
  number, a sequence (array, list or tuple), an optimizer result object with its
  attribute \<open>x\<close>, and a string.
\<close>

datatype val = PyNone | PyBool bool | Num fl | Seq "val list" | OptimizeResult val | Str string

datatype error =
    AssertionError | UnboundLocalError | AttributeError | TypeError | ValueError
  | IndexError | ZeroDivisionError | NotImplementedError | IOError

definition arr :: "fl list \<Rightarrow> val" where
  "arr xs = Seq (map Num xs)"

fun as_float :: "val \<Rightarrow> error + fl" where
  "as_float (Num a) = Inr a"
| "as_float _ = Inl TypeError"

fun as_floats :: "val list \<Rightarrow> error + fl list" where
  "as_floats [] = Inr []"
| "as_floats (v # vs) =
     (case as_float v of Inl e \<Rightarrow> Inl e
      | Inr a \<Rightarrow> (case as_floats vs of Inl e \<Rightarrow> Inl e | Inr as \<Rightarrow> Inr (a # as)))"

text \<open>A stored value read back as a numeric one-dimensional array.\<close>

fun as_array :: "val \<Rightarrow> error + fl list" where
  "as_array (Seq vs) = as_floats vs"
| "as_array _ = Inl TypeError"

text \<open>Star-unpacking \<open>*v\<close> into positional arguments.\<close>

fun unpack :: "val \<Rightarrow> error + val list" where
  "unpack (Seq vs) = Inr vs"
| "unpack _ = Inl TypeError"

text \<open>Indexing \<open>v[0]\<close>, \<open>v[1]\<close> of a sequence.\<close>

fun index :: "val \<Rightarrow> nat \<Rightarrow> error + val" where
  "index (Seq vs) i = (if i < length vs then Inr (vs ! i) else Inl IndexError)"
| "index _ i = Inl TypeError"

text \<open>The attribute \<open>.x\<close> of an optimizer result; no other value has it.\<close>

fun attr_x :: "val \<Rightarrow> error + val" where
  "attr_x (OptimizeResult v) = Inr v"
| "attr_x _ = Inl AttributeError"

text \<open>
  Elementwise subtraction of one-dimensional arrays with NumPy broadcasting: equal
  lengths, or one operand of length one; any other pair of shapes raises.
\<close>

definition np_sub :: "fl list \<Rightarrow> fl list \<Rightarrow> error + fl list" where
  "np_sub xs ys =
     (if length xs = length ys then Inr (map2 fsub xs ys)
      else if length ys = 1 then Inr (map (\<lambda>x. fsub x (hd ys)) xs)
      else if length xs = 1 then Inr (map (\<lambda>y. fsub (hd xs) y) ys)
      else Inl ValueError)"

definition np_square :: "fl list \<Rightarrow> fl list" where
  "np_square xs = map (\<lambda>x. fmul x x) xs"

text \<open>\<open>np.append(a, values)\<close> on a flat array: the flattened concatenation.\<close>

fun np_append :: "val \<Rightarrow> val list \<Rightarrow> val" where
  "np_append (Seq vs) ws = Seq (vs @ ws)"
| "np_append v ws = Seq (v # ws)"

text \<open>
  \<open>np.argmin\<close>: the first index of the least entry, the first NaN if there is one; an
  empty array raises.
\<close>

fun argmin_from :: "nat \<Rightarrow> fl \<Rightarrow> nat \<Rightarrow> fl list \<Rightarrow> nat" where
  "argmin_from best b i [] = best"
| "argmin_from best b i (x # xs) =
     (if isnan b then best
      else if isnan x \<or> fless x b then argmin_from i x (Suc i) xs
      else argmin_from best b (Suc i) xs)"

definition np_argmin :: "fl list \<Rightarrow> error + nat" where
  "np_argmin xs = (case xs of [] \<Rightarrow> Inl ValueError | x # rest \<Rightarrow> Inr (argmin_from 0 x 1 rest))"


text \<open>Errors abort a list comprehension at the first failing element.\<close>

fun traverse :: "('a \<Rightarrow> error + 'b) \<Rightarrow> 'a list \<Rightarrow> error + 'b list" where
  "traverse f [] = Inr []"
| "traverse f (x # xs) =
     (case f x of Inl e \<Rightarrow> Inl e
      | Inr y \<Rightarrow> (case traverse f xs of Inl e \<Rightarrow> Inl e | Inr ys \<Rightarrow> Inr (y # ys)))"

section \<open>The data model\<close>

text \<open>
  A search grid entry is either an explicit range (a Python \<open>slice\<close> with start, stop
  and step) or a \<open>(low, high)\<close> pair that is sampled at \<open>Ns\<close> points. A bound leaves
  either side open with \<open>None\<close>.
\<close>

datatype grid = Slice real real real | Pair real real

type_synonym bound = "real option \<times> real option"

text \<open>
  A prediction function of a model is called with positional arguments and keyword
  arguments and returns a one-dimensional numeric sequence, or raises.
\<close>

type_synonym pycall = "val list \<Rightarrow> (string \<times> val) list \<Rightarrow> error + fl list"

text \<open>
  A prediction method as the model class defines it, before it is bound to a model:
  besides its arguments it can read the attribute \<open>data\<close> of the model (\<open>None\<close> while
  the model has no such attribute). The other attributes of a model do not change once
  the model exists.
\<close>

type_synonym model_method = "fl list option \<Rightarrow> pycall"

text \<open>\<open>scipy.optimize.NonlinearConstraint(fun, lb, ub)\<close>.\<close>

record constraint =
  cfun :: "fl list \<Rightarrow> error + fl"
  lb :: fl
  ub :: fl

text \<open>
  Every object carries the attributes that memoized properties have stored on it
  (\<open>dict\<close>) and, as an execution counter, the names of the defining computations that
  have run on it, in order (\<open>runs\<close>).
\<close>

record pyobject =
  dict :: "string \<rightharpoonup> val"
  runs :: "string list"

text \<open>
  A stimulus as a fit reads it. \<open>StimulusModel.__init__\<close> sets the sample array and the
  repetition time (and the element type, which is left out); the display extent
  \<open>screen_dva\<close> is an attribute that only some stimulus classes add: \<open>None\<close> stands for
  a stimulus without it.
\<close>

record stimulus =
  stim_arr :: "fl list"
  tr_length :: fl
  screen_dva :: "fl option"

definition StimulusModel_init :: "fl list \<Rightarrow> fl \<Rightarrow> stimulus" where
  "StimulusModel_init samples tr = \<lparr>stim_arr = samples, tr_length = tr, screen_dva = None\<rparr>"

text \<open>
  \<open>PopulationModel\<close>. The two prediction functions are the methods every concrete model
  supplies; \<open>ballpark_signature_len\<close> is
  \<open>len(signature(self.generate_ballpark_prediction).parameters)\<close>. The attributes
  \<open>bounded_amplitude\<close> and \<open>store_search_space\<close> exist only when someone has set them:
  \<open>None\<close>, respectively \<open>False\<close>, stands for an absent attribute. \<open>model_data\<close> is the
  attribute \<open>data\<close> of the model, absent until a fit sets it. The attributes
  \<open>hrf_model\<close>, \<open>normalizer\<close> and \<open>nuisance\<close> of the model are read by nothing that is
  modelled here and are left out.
\<close>

record population_model = pyobject +
  stimulus :: stimulus
  cached_model_path :: "string option"
  bounded_amplitude :: "bool option"
  store_search_space :: bool
  model_data :: "fl list option"
  generate_ballpark_prediction :: model_method
  generate_prediction :: model_method
  ballpark_signature_len :: nat

text \<open>
  The bound method \<open>model.f\<close>: the method of the class, reading the data that the model
  holds when it is called.
\<close>

definition method_of :: "population_model \<Rightarrow> (population_model \<Rightarrow> model_method) \<Rightarrow> pycall" where
  "method_of m f = f m (model_data m)"

text \<open>\<open>PopulationFit\<close>: the attributes that \<open>__init__\<close> sets.\<close>

record fit = pyobject +
  grids :: "grid list"
  bounds :: "bound list"
  Ns :: "int option"
  voxel_index :: "int \<times> int \<times> int"
  auto_fit :: bool
  grid_only :: bool
  outer_limit :: fl
  model :: population_model
  data :: "fl list"
  nuisance :: "(fl list \<Rightarrow> error + fl list) option"
  verbose :: bool
  very_verbose :: bool
  fit_method :: string
  constraints :: "constraint list"

text \<open>
  What the module calls outside itself: the reductions \<open>np.sum\<close> and \<open>ndarray.mean\<close> of
  NumPy, the row sums of \<open>numexpr\<close> (\<open>ne.evaluate('sum(..., axis=1)')\<close>, here \<open>ne_sum\<close> of
  one row), SciPy's \<open>linregress\<close>, the functions of \<open>popeye.utilities_md\<close> (the error
  function and the two optimizers), unpickling a file, and the layout of the summary
  string. A reduction of a double-precision array rounds and can overflow: the sum of
  finite numbers can be an infinity or NaN, and the mean of equal numbers need not be
  that number.
\<close>

record env =
  np_sum :: "fl list \<Rightarrow> fl"
  np_mean :: "fl list \<Rightarrow> fl"
  ne_sum :: "fl list \<Rightarrow> fl"
  linregress :: "fl list \<Rightarrow> fl list \<Rightarrow> error + fl \<times> fl"
  error_function :: "fl list \<Rightarrow> fl list \<Rightarrow> error + fl"
  gradient_descent_search ::
    "fl list \<Rightarrow> (fl list \<Rightarrow> fl list \<Rightarrow> error + fl) \<Rightarrow> pycall \<Rightarrow> val \<Rightarrow> bound list
      \<Rightarrow> constraint list \<Rightarrow> error + val"
  global_search ::
    "fl list \<Rightarrow> (fl list \<Rightarrow> fl list \<Rightarrow> error + fl) \<Rightarrow> pycall \<Rightarrow> bound list
      \<Rightarrow> constraint list \<Rightarrow> nat \<Rightarrow> int \<Rightarrow> error + val"
  pickle_load :: "string \<Rightarrow> error + (fl list \<times> fl list) list"
  format_msg :: "int \<times> int \<times> int \<Rightarrow> val \<Rightarrow> val \<Rightarrow> string"

section \<open>Reading attributes: state and errors\<close>

text \<open>
  Reading an attribute may compute, store and raise: an action takes the object and
  returns either the error raised or the value together with the object afterwards.
\<close>

type_synonym ('s, 'a) act = "'s \<Rightarrow> error + ('a \<times> 's)"

definition ret :: "'a \<Rightarrow> ('s, 'a) act" where
  "ret v s = Inr (v, s)"

definition bnd :: "('s, 'a) act \<Rightarrow> ('a \<Rightarrow> ('s, 'b) act) \<Rightarrow> ('s, 'b) act" where
  "bnd m f s = (case m s of Inl e \<Rightarrow> Inl e | Inr (v, s') \<Rightarrow> f v s')"

definition lift :: "error + 'a \<Rightarrow> ('s, 'a) act" where
  "lift r s = (case r of Inl e \<Rightarrow> Inl e | Inr v \<Rightarrow> Inr (v, s))"

text \<open>An action of the model, run on the model that the fit refers to.\<close>

definition on_model :: "(population_model, 'a) act \<Rightarrow> (fit, 'a) act" where
  "on_model m s =
     (case m (model s) of Inl e \<Rightarrow> Inl e | Inr (v, m') \<Rightarrow> Inr (v, s\<lparr>model := m'\<rparr>))"

text \<open>
  Modelled from the spec: \<open>popeye.onetime.auto_attr\<close>, the decorator of every memoized
  field, is not among the source files. The spec (4.4): the first read of a derived field
  executes its defining computation and stores the result on the owning instance; every
  subsequent read returns the stored value without recomputation. A read that finds the
  name on the instance returns what is stored there; otherwise the defining computation
  runs (and is counted in \<open>runs\<close>), and its result is stored under the name.
\<close>

definition auto_attr ::
  "string \<Rightarrow> ('a pyobject_scheme, val) act \<Rightarrow> ('a pyobject_scheme, val) act" where
  "auto_attr name getter s =
     (case dict s name of
        Some v \<Rightarrow> Inr (v, s)
      | None \<Rightarrow>
          (case getter (s\<lparr>runs := runs s @ [name]\<rparr>) of
             Inl e \<Rightarrow> Inl e
           | Inr (v, s') \<Rightarrow> Inr (v, s'\<lparr>dict := (dict s')(name \<mapsto> v)\<rparr>)))"


definition and_then :: "error + 'a \<Rightarrow> ('a \<Rightarrow> error + 'b) \<Rightarrow> error + 'b" where
  "and_then r f = (case r of Inl e \<Rightarrow> Inl e | Inr v \<Rightarrow> f v)"

definition to_val :: "error + fl list \<Rightarrow> error + val" where
  "to_val r = and_then r (\<lambda>xs. Inr (arr xs))"

section \<open>The parameter grid\<close>

text \<open>
  \<open>np.arange(start, stop, step)\<close> and \<open>np.linspace(low, high, Ns)\<close> on finite numbers.
  \<open>Ns\<close> is \<open>None\<close> unless the caller gives it.
\<close>

definition np_arange :: "real \<Rightarrow> real \<Rightarrow> real \<Rightarrow> error + real list" where
  "np_arange start stop step =
     (if step = 0 then Inl ZeroDivisionError
      else Inr (map (\<lambda>i. start + real i * step) [0..<nat \<lceil>(stop - start) / step\<rceil>]))"

definition np_linspace :: "real \<Rightarrow> real \<Rightarrow> int option \<Rightarrow> error + real list" where
  "np_linspace low high num =
     (case num of
        None \<Rightarrow> Inl TypeError
      | Some n \<Rightarrow>
          if n < 0 then Inl ValueError
          else if n = 1 then Inr [low]
          else Inr (map (\<lambda>i. low + real i * ((high - low) / real_of_int (n - 1))) [0..<nat n]))"

fun is_slice :: "grid \<Rightarrow> bool" where
  "is_slice (Slice _ _ _) = True"
| "is_slice (Pair _ _) = False"

fun slice_range :: "grid \<Rightarrow> error + real list" where
  "slice_range (Slice start stop step) = np_arange start stop step"
| "slice_range (Pair _ _) = Inl AttributeError"

fun pair_range :: "int option \<Rightarrow> grid \<Rightarrow> error + real list" where
  "pair_range num (Pair low high) = np_linspace low high num"
| "pair_range num (Slice _ _ _) = Inl TypeError"

text \<open>
  The parameter space of \<open>cache_model\<close>: the kind of the first grid entry decides how all
  of them are read.
\<close>

definition parameter_space :: "grid list \<Rightarrow> int option \<Rightarrow> error + real list list" where
  "parameter_space gs num =
     (case gs of
        [] \<Rightarrow> Inl IndexError
      | g # _ \<Rightarrow> if is_slice g then traverse slice_range gs else traverse (pair_range num) gs)"

text \<open>\<open>itertools.product(*params)\<close>, one row per combination.\<close>

definition combos_of :: "real list list \<Rightarrow> fl list list" where
  "combos_of params = map (map Fin) (product_lists params)"

section \<open>The brute-force search\<close>

text \<open>
  Modelled from the spec: \<open>popeye.utilities_md.brute_force_search\<close> is not among the
  source files. The spec (4.3): the search exhaustively evaluates the ballpark-prediction
  function over every combination in the sampled parameter grid (explicit per-dimension
  ranges, or \<open>(low, high)\<close> pairs sampled at \<open>Ns\<close> evenly spaced points per dimension), scores
  each combination with a fixed error function and selects the minimum-error combination.
  The grid is sampled as \<open>cache_model\<close> samples it; among several combinations of least
  error the first one wins; the result holds the winning combination and its error.
\<close>

definition score ::
  "(fl list \<Rightarrow> fl list \<Rightarrow> error + fl) \<Rightarrow> fl list \<Rightarrow> pycall \<Rightarrow> fl list \<Rightarrow> error + fl list \<times> fl" where
  "score errf dat objective combo =
     and_then (objective (map Num combo) []) (\<lambda>prediction.
     and_then (errf dat prediction) (\<lambda>e. Inr (combo, e)))"

definition better :: "fl list \<times> fl \<Rightarrow> fl list \<times> fl \<Rightarrow> fl list \<times> fl" where
  "better best cand = (if fless (snd cand) (snd best) then cand else best)"

definition brute_force_search ::
  "fl list \<Rightarrow> (fl list \<Rightarrow> fl list \<Rightarrow> error + fl) \<Rightarrow> pycall \<Rightarrow> grid list \<Rightarrow> int option
    \<Rightarrow> error + val" where
  "brute_force_search dat errf objective gs num =
     and_then (parameter_space gs num) (\<lambda>params.
     and_then (traverse (score errf dat objective) (combos_of params)) (\<lambda>scored.
       case scored of
         [] \<Rightarrow> Inl ValueError
       | first # rest \<Rightarrow>
           (case foldl better first rest of (combo, e) \<Rightarrow> Inr (Seq [arr combo, Num e]))))"

section \<open>PopulationModel\<close>

text \<open>
  \<open>regress\<close>: slope and intercept of SciPy's \<open>linregress\<close>, the slope made nonnegative
  when the model has a true attribute \<open>bounded_amplitude\<close>.
\<close>

definition regress :: "env \<Rightarrow> population_model \<Rightarrow> fl list \<Rightarrow> fl list \<Rightarrow> error + fl \<times> fl" where
  "regress env m X y =
     and_then (linregress env X y) (\<lambda>(slope, intercept).
       if bounded_amplitude m = Some True then Inr (fabs slope, intercept)
       else Inr (slope, intercept))"





text \<open>The memoized fields of the model: the unpickled cache and its two columns.\<close>

definition resurrect_cached_model_get :: "env \<Rightarrow> (population_model, val) act" where
  "resurrect_cached_model_get env m =
     (case cached_model_path m of
        None \<Rightarrow> Inl TypeError
      | Some path \<Rightarrow>
          lift (and_then (pickle_load env path) (\<lambda>dat.
            Inr (Seq [Seq (map (\<lambda>d. arr (fst d)) dat), Seq (map (\<lambda>d. arr (snd d)) dat)]))) m)"

definition resurrect_cached_model :: "env \<Rightarrow> (population_model, val) act" where
  "resurrect_cached_model env = auto_attr ''resurrect_cached_model'' (resurrect_cached_model_get env)"

definition cached_model_timeseries_get :: "env \<Rightarrow> (population_model, val) act" where
  "cached_model_timeseries_get env = bnd (resurrect_cached_model env) (\<lambda>r. lift (index r 0))"

definition cached_model_timeseries :: "env \<Rightarrow> (population_model, val) act" where
  "cached_model_timeseries env = auto_attr ''cached_model_timeseries'' (cached_model_timeseries_get env)"

definition cached_model_parameters_get :: "env \<Rightarrow> (population_model, val) act" where
  "cached_model_parameters_get env = bnd (resurrect_cached_model env) (\<lambda>r. lift (index r 1))"

definition cached_model_parameters :: "env \<Rightarrow> (population_model, val) act" where
  "cached_model_parameters env = auto_attr ''cached_model_parameters'' (cached_model_parameters_get env)"

text \<open>
  \<open>PopulationModel.__init__\<close>; the two prediction methods and the length of the ballpark
  signature come from the concrete model class. With a cache path the cache is read at
  once.
\<close>

definition PopulationModel_init ::
  "env \<Rightarrow> stimulus \<Rightarrow> string option \<Rightarrow> model_method \<Rightarrow> model_method \<Rightarrow> nat
    \<Rightarrow> error + population_model" where
  "PopulationModel_init env stim path ballpark_fn prediction_fn n =
     (let m = \<lparr>dict = Map.empty, runs = [], stimulus = stim, cached_model_path = path,
                bounded_amplitude = None, store_search_space = False, model_data = None,
                generate_ballpark_prediction = ballpark_fn,
                generate_prediction = prediction_fn, ballpark_signature_len = n\<rparr>
      in if path \<noteq> None
         then and_then (resurrect_cached_model env m) (\<lambda>(r, m'). Inr m')
         else Inr m)"


section \<open>PopulationFit: the memoized fields\<close>

text \<open>
  For every memoized field \<open>f\<close> of the class, \<open>f_get\<close> is the body of the method and \<open>f\<close>
  is the attribute as it is read, through \<open>auto_attr\<close>. Printing (under \<open>very_verbose\<close>)
  and the wall-clock times \<open>start\<close> and \<open>finish\<close> are left out; \<open>rsquared_adj\<close> and
  \<open>rsquared0\<close> are not modelled.
\<close>

definition best_cached_model_parameters_get :: "env \<Rightarrow> (fit, val) act" where
  "best_cached_model_parameters_get env =
     bnd (on_model (cached_model_timeseries env)) (\<lambda>a.
     bnd (\<lambda>s. lift
            (and_then (unpack a) (\<lambda>rows.
             and_then (traverse (\<lambda>row.
                 and_then (as_array row) (\<lambda>r.
                 and_then (np_sub r (data s)) (\<lambda>d. Inr (ne_sum env (np_square d))))) rows)
               np_argmin)) s) (\<lambda>idx.
     bnd (on_model (cached_model_parameters env)) (\<lambda>ps. lift (index ps idx))))"

definition best_cached_model_parameters :: "env \<Rightarrow> (fit, val) act" where
  "best_cached_model_parameters env =
     auto_attr ''best_cached_model_parameters'' (best_cached_model_parameters_get env)"

definition brute_force_get :: "env \<Rightarrow> (fit, val) act" where
  "brute_force_get env s =
     lift (brute_force_search (data s) (error_function env)
             (method_of (model s) generate_ballpark_prediction) (grids s) (Ns s)) s"

definition brute_force :: "env \<Rightarrow> (fit, val) act" where
  "brute_force env = auto_attr ''brute_force'' (brute_force_get env)"

definition ballpark_prediction_get :: "env \<Rightarrow> (fit, val) act" where
  "ballpark_prediction_get env =
     bnd (brute_force env) (\<lambda>bf.
     bnd (lift (index bf 0)) (\<lambda>x0.
     bnd (lift (unpack x0)) (\<lambda>args s.
       lift (to_val (method_of (model s) generate_ballpark_prediction (args @ [arr (data s)])
                      [(''unscaled'', PyBool True)])) s)))"

definition ballpark_prediction :: "env \<Rightarrow> (fit, val) act" where
  "ballpark_prediction env = auto_attr ''ballpark_prediction'' (ballpark_prediction_get env)"

definition slope_get :: "env \<Rightarrow> (fit, val) act" where
  "slope_get env =
     bnd (ballpark_prediction env) (\<lambda>bp s.
       lift (and_then (as_array bp) (\<lambda>X.
             and_then (regress env (model s) X (data s)) (\<lambda>r. Inr (Num (fst r))))) s)"

definition slope :: "env \<Rightarrow> (fit, val) act" where
  "slope env = auto_attr ''slope'' (slope_get env)"

definition intercept_get :: "env \<Rightarrow> (fit, val) act" where
  "intercept_get env =
     bnd (ballpark_prediction env) (\<lambda>bp s.
       lift (and_then (as_array bp) (\<lambda>X.
             and_then (regress env (model s) X (data s)) (\<lambda>r. Inr (Num (snd r))))) s)"

definition intercept :: "env \<Rightarrow> (fit, val) act" where
  "intercept env = auto_attr ''intercept'' (intercept_get env)"

definition scaled_ballpark_prediction_get :: "env \<Rightarrow> (fit, val) act" where
  "scaled_ballpark_prediction_get env =
     bnd (ballpark_prediction env) (\<lambda>bp.
     bnd (slope env) (\<lambda>sl.
     bnd (intercept env) (\<lambda>ic.
       lift (and_then (as_array bp) (\<lambda>xs.
             and_then (as_float sl) (\<lambda>a.
             and_then (as_float ic) (\<lambda>b.
               Inr (arr (map (\<lambda>x. fadd (fmul x a) b) xs)))))))))"

definition scaled_ballpark_prediction :: "env \<Rightarrow> (fit, val) act" where
  "scaled_ballpark_prediction env =
     auto_attr ''scaled_ballpark_prediction'' (scaled_ballpark_prediction_get env)"

definition ballpark_get :: "env \<Rightarrow> (fit, val) act" where
  "ballpark_get env s =
     (if fit_method s = ''global_opt''
      then ret (Seq (replicate (ballpark_signature_len (model s) + 2) PyNone)) s
      else if cached_model_path (model s) \<noteq> None
      then best_cached_model_parameters env s
      else bnd (brute_force env) (\<lambda>bf.
           bnd (lift (index bf 0)) (\<lambda>x0.
           bnd (slope env) (\<lambda>sl.
           bnd (intercept env) (\<lambda>ic. ret (np_append x0 [sl, ic]))))) s)"

definition ballpark :: "env \<Rightarrow> (fit, val) act" where
  "ballpark env = auto_attr ''ballpark'' (ballpark_get env)"

definition gradient_descent_get :: "env \<Rightarrow> (fit, val) act" where
  "gradient_descent_get env =
     bnd (ballpark env) (\<lambda>b s.
       lift (gradient_descent_search env (data s) (error_function env)
               (method_of (model s) generate_prediction) b (bounds s) (constraints s)) s)"

definition gradient_descent :: "env \<Rightarrow> (fit, val) act" where
  "gradient_descent env = auto_attr ''gradient_descent'' (gradient_descent_get env)"

definition global_opt_get :: "env \<Rightarrow> (fit, val) act" where
  "global_opt_get env s =
     lift (global_search env (data s) (error_function env)
             (method_of (model s) generate_prediction) (bounds s) (constraints s) 8 (- 1)) s"

definition global_opt :: "env \<Rightarrow> (fit, val) act" where
  "global_opt env = auto_attr ''global_opt'' (global_opt_get env)"

definition overloaded_estimate_get :: "(fit, val) act" where
  "overloaded_estimate_get = ret PyNone"

definition overloaded_estimate :: "(fit, val) act" where
  "overloaded_estimate = auto_attr ''overloaded_estimate'' overloaded_estimate_get"

definition estimate_get :: "env \<Rightarrow> (fit, val) act" where
  "estimate_get env s =
     (if fit_method s = ''global_opt''
      then bnd (global_opt env) (\<lambda>r. lift (attr_x r)) s
      else bnd (gradient_descent env) (\<lambda>r. lift (attr_x r)) s)"

definition estimate :: "env \<Rightarrow> (fit, val) act" where
  "estimate env = auto_attr ''estimate'' (estimate_get env)"

definition prediction_get :: "env \<Rightarrow> (fit, val) act" where
  "prediction_get env s =
     (if fit_method s = ''grid_only''
      then bnd (ballpark env) (\<lambda>b.
           bnd (lift (unpack b)) (\<lambda>args s'.
             lift (to_val (method_of (model s') generate_prediction args [])) s')) s
      else bnd (estimate env) (\<lambda>e.
           bnd (lift (unpack e)) (\<lambda>args s'.
             lift (to_val (method_of (model s') generate_prediction args [])) s')) s)"

definition prediction :: "env \<Rightarrow> (fit, val) act" where
  "prediction env = auto_attr ''prediction'' (prediction_get env)"

definition rss_get :: "env \<Rightarrow> (fit, val) act" where
  "rss_get env =
     bnd (prediction env) (\<lambda>p s.
       lift (and_then (as_array p) (\<lambda>pv.
             and_then (np_sub (data s) pv) (\<lambda>d. Inr (Num (np_sum env (np_square d)))))) s)"

definition rss :: "env \<Rightarrow> (fit, val) act" where
  "rss env = auto_attr ''rss'' (rss_get env)"

text \<open>
  The body of \<open>rsquared\<close> after \<open>self.rss\<close> has been read: the denominator
  \<open>np.sum((self.data - self.data.mean())**2)\<close>, the raw coefficient, the replacement of a
  non-finite one by 0, and the two clamps.
\<close>

definition ss_tot :: "env \<Rightarrow> fl list \<Rightarrow> fl" where
  "ss_tot env dat = np_sum env (np_square (map (\<lambda>x. fsub x (np_mean env dat)) dat))"

definition r2_raw :: "env \<Rightarrow> fl \<Rightarrow> fl list \<Rightarrow> fl" where
  "r2_raw env rss_value dat = fsub (Fin 1) (fdiv rss_value (ss_tot env dat))"

definition r2_clean :: "fl \<Rightarrow> fl" where
  "r2_clean r2 =
     (if isinf r2 \<or> isnan r2 then Fin 0
      else np_minimum (np_maximum r2 (Fin 0)) (Fin 1))"

definition rsquared_get :: "env \<Rightarrow> (fit, val) act" where
  "rsquared_get env =
     bnd (rss env) (\<lambda>r s.
       lift (and_then (as_float r) (\<lambda>rss_value.
               Inr (Num (r2_clean (r2_raw env rss_value (data s)))))) s)"

definition rsquared :: "env \<Rightarrow> (fit, val) act" where
  "rsquared env = auto_attr ''rsquared'' (rsquared_get env)"

definition msg_get :: "env \<Rightarrow> (fit, val) act" where
  "msg_get env s =
     (if auto_fit s
      then bnd overloaded_estimate (\<lambda>oe.
             if oe \<noteq> PyNone
             then bnd (rsquared env) (\<lambda>r.
                  bnd overloaded_estimate (\<lambda>oe'.
                    ret (Str (format_msg env (voxel_index s) r oe'))))
             else bnd (rsquared env) (\<lambda>r.
                  bnd (estimate env) (\<lambda>e.
                    ret (Str (format_msg env (voxel_index s) r e))))) s
      else bnd (rsquared env) (\<lambda>r.
           bnd (estimate env) (\<lambda>e.
             ret (Str (format_msg env (voxel_index s) r e)))) s)"

definition msg :: "env \<Rightarrow> (fit, val) act" where
  "msg env = auto_attr ''msg'' (msg_get env)"


section \<open>PopulationFit: construction\<close>

text \<open>
  \<open>set_verbose\<close>: three tests in a row, for 0, 1 and 2; each sets both flags. Any other
  value leaves the local \<open>very_verbose\<close> unassigned, and the \<open>return\<close> raises.
\<close>

definition set_verbose :: "int \<Rightarrow> error + bool \<times> bool" where
  "set_verbose v =
     (if v = 0 then Inr (False, False)
      else if v = 1 then Inr (True, False)
      else if v = 2 then Inr (True, True)
      else Inl UnboundLocalError)"

text \<open>
  The functions of the two constraints, on the parameter vector \<open>x\<close> that an optimizer
  passes: \<open>np.sqrt(x[0]**2 + x[1]**2)\<close>, and the same minus \<open>outer_limit * x[2]\<close>.
\<close>

definition radial_distance :: "fl list \<Rightarrow> error + fl" where
  "radial_distance x =
     (if length x < 2 then Inl IndexError
      else Inr (fsqrt (fadd (fmul (x ! 0) (x ! 0)) (fmul (x ! 1) (x ! 1)))))"

definition outer_distance :: "fl \<Rightarrow> fl list \<Rightarrow> error + fl" where
  "outer_distance limit x =
     (if length x < 3 then Inl IndexError
      else Inr (fsub (fsqrt (fadd (fmul (x ! 0) (x ! 0)) (fmul (x ! 1) (x ! 1))))
                     (fmul limit (x ! 2))))"

definition make_constraints :: "fl \<Rightarrow> fl \<Rightarrow> constraint list" where
  "make_constraints limit dva =
     [\<lparr>cfun = radial_distance, lb = NInf, ub = dva\<rparr>,
      \<lparr>cfun = outer_distance limit, lb = NInf, ub = fdiv dva (Fin 2)\<rparr>]"

text \<open>
  The flush at the end of the automatic fit, unless the model has an attribute
  \<open>store_search_space\<close>: three fields are overwritten by lists of \<open>None\<close>.
\<close>

definition flush :: "(fit, val) act" where
  "flush s =
     (if \<not> store_search_space (model s)
      then Inr (PyNone, s\<lparr>dict := (dict s)
             (''gradient_descent'' \<mapsto> Seq (replicate 6 PyNone),
              ''brute_force'' \<mapsto> Seq (replicate 4 PyNone),
              ''global_opt'' \<mapsto> Seq (replicate 6 PyNone))\<rparr>)
      else Inr (PyNone, s))"

text \<open>
  The automatic fit of \<open>__init__\<close>. Its tests read the argument \<open>fit_method\<close> of the
  constructor, not the attribute \<open>self.fit_method\<close>.
\<close>

definition automatic_fit :: "env \<Rightarrow> string \<Rightarrow> (fit, val) act" where
  "automatic_fit env fit_method_arg =
     bnd (if fit_method_arg \<noteq> ''global_opt'' then ballpark env else ret PyNone) (\<lambda>_.
     bnd (if fit_method_arg \<noteq> ''grid_only''
          then bnd (estimate env) (\<lambda>_. overloaded_estimate) else ret PyNone) (\<lambda>_.
     bnd (if fit_method_arg \<noteq> ''grid_only''
          then bnd (rss env) (\<lambda>_. rsquared env) else ret PyNone) (\<lambda>_.
     bnd flush (\<lambda>_ s.
       (if verbose s then msg env else ret PyNone) s))))"

text \<open>
  The fit as \<open>__init__\<close> has set it up when it comes to the automatic fit: \<open>dat\<close> is the
  argument \<open>data\<close>, \<open>dat'\<close> what the nuisance function has made of it, \<open>vb\<close> and \<open>vvb\<close>
  are the two flags of \<open>set_verbose\<close> and \<open>dva\<close> is the display extent of the stimulus.
  The model receives the data as they were passed in.
\<close>

definition new_fit ::
  "population_model \<Rightarrow> fl list \<Rightarrow> fl list \<Rightarrow> grid list \<Rightarrow> bound list \<Rightarrow> int \<times> int \<times> int
    \<Rightarrow> int option \<Rightarrow> bool \<Rightarrow> bool \<Rightarrow> string \<Rightarrow> fl \<Rightarrow> (fl list \<Rightarrow> error + fl list) option
    \<Rightarrow> bool \<Rightarrow> bool \<Rightarrow> fl \<Rightarrow> fit" where
  "new_fit m dat dat' gs bs vox num auto only fit_method_arg limit nuis vb vvb dva =
     \<lparr>dict = Map.empty, runs = [], grids = gs, bounds = bs, Ns = num,
      voxel_index = vox, auto_fit = auto, grid_only = only,
      outer_limit = limit, model = m\<lparr>model_data := Some dat\<rparr>,
      data = dat', nuisance = nuis, verbose = vb, very_verbose = vvb,
      fit_method = (if only then ''grid_only'' else fit_method_arg),
      constraints = make_constraints limit dva\<rparr>"

text \<open>
  \<open>PopulationFit.__init__(model, data, grids, bounds, voxel_index, Ns, auto_fit,
  grid_only, fit_method, outer_limit, nuisance, verbose)\<close>: the verbosity, the assertion
  on the fit method, the constraints (which read the display extent of the stimulus), the
  nuisance function, and the automatic fit.
\<close>

definition PopulationFit_init ::
  "env \<Rightarrow> population_model \<Rightarrow> fl list \<Rightarrow> grid list \<Rightarrow> bound list \<Rightarrow> int \<times> int \<times> int \<Rightarrow> int option
    \<Rightarrow> bool \<Rightarrow> bool \<Rightarrow> string \<Rightarrow> fl \<Rightarrow> (fl list \<Rightarrow> error + fl list) option \<Rightarrow> int
    \<Rightarrow> error + fit" where
  "PopulationFit_init env m dat gs bs vox num auto only fit_method_arg limit nuis verb =
     and_then (set_verbose verb) (\<lambda>(vb, vvb).
       if fit_method_arg \<notin> set [''2step'', ''grid_only'', ''global_opt'']
       then Inl AssertionError
       else
         and_then (case screen_dva (stimulus m) of
                     None \<Rightarrow> Inl AttributeError | Some dva \<Rightarrow> Inr dva) (\<lambda>dva.
         and_then (case nuis of None \<Rightarrow> Inr dat | Some f \<Rightarrow> f dat) (\<lambda>dat'.
           let s = new_fit m dat dat' gs bs vox num auto only fit_method_arg limit nuis
                     vb vvb dva
           in if auto
              then and_then (automatic_fit env fit_method_arg s) (\<lambda>(_, s'). Inr s')
              else Inr s)))"


section \<open>Reading fields by name\<close>

text \<open>
  \<open>read_field\<close> is the attribute access \<open>fit.name\<close> for the memoized fields of the fit
  modelled here; \<open>read_fields\<close> reads a sequence of them, one after the other.
\<close>

definition read_field :: "env \<Rightarrow> string \<Rightarrow> (fit, val) act" where
  "read_field env name =
     (if name = ''best_cached_model_parameters'' then best_cached_model_parameters env
      else if name = ''brute_force'' then brute_force env
      else if name = ''ballpark'' then ballpark env
      else if name = ''gradient_descent'' then gradient_descent env
      else if name = ''global_opt'' then global_opt env
      else if name = ''overloaded_estimate'' then overloaded_estimate
      else if name = ''estimate'' then estimate env
      else if name = ''ballpark_prediction'' then ballpark_prediction env
      else if name = ''scaled_ballpark_prediction'' then scaled_ballpark_prediction env
      else if name = ''slope'' then slope env
      else if name = ''intercept'' then intercept env
      else if name = ''prediction'' then prediction env
      else if name = ''rsquared'' then rsquared env
      else if name = ''rss'' then rss env
      else if name = ''msg'' then msg env
      else (\<lambda>s. Inl AttributeError))"

fun read_fields :: "env \<Rightarrow> string list \<Rightarrow> (fit, val list) act" where
  "read_fields env [] = ret []"
| "read_fields env (n # ns) =
     bnd (read_field env n) (\<lambda>v. bnd (read_fields env ns) (\<lambda>vs. ret (v # vs)))"

section \<open>What a read may change\<close>

text \<open>
  Two states of a model, or of a fit, have the same configuration when they agree on
  every attribute that \<open>__init__\<close> sets; only the memoized fields and the execution
  counter may differ.
\<close>

definition model_config_eq :: "population_model \<Rightarrow> population_model \<Rightarrow> bool" where
  "model_config_eq m m' =
     (stimulus m' = stimulus m \<and> cached_model_path m' = cached_model_path m \<and>
      bounded_amplitude m' = bounded_amplitude m \<and>
      store_search_space m' = store_search_space m \<and> model_data m' = model_data m \<and>
      generate_ballpark_prediction m' = generate_ballpark_prediction m \<and>
      generate_prediction m' = generate_prediction m \<and>
      ballpark_signature_len m' = ballpark_signature_len m)"

definition config_eq :: "fit \<Rightarrow> fit \<Rightarrow> bool" where
  "config_eq s s' =
     (grids s' = grids s \<and> bounds s' = bounds s \<and> Ns s' = Ns s \<and>
      voxel_index s' = voxel_index s \<and> auto_fit s' = auto_fit s \<and>
      grid_only s' = grid_only s \<and> outer_limit s' = outer_limit s \<and>
      data s' = data s \<and> nuisance s' = nuisance s \<and> verbose s' = verbose s \<and>
      very_verbose s' = very_verbose s \<and> fit_method s' = fit_method s \<and>
      constraints s' = constraints s \<and> model_config_eq (model s) (model s'))"

text \<open>
  \<open>later N s s'\<close>: the state \<open>s'\<close> comes after \<open>s\<close> by lazy reads that ran defining
  computations of fields in \<open>N\<close> only. The configuration is the same, every stored field
  keeps its value, the computations that ran are those of fields that were not stored,
  and every newly stored field has run.
\<close>

definition later :: "string set \<Rightarrow> fit \<Rightarrow> fit \<Rightarrow> bool" where
  "later N s s' =
     (config_eq s s' \<and> (\<forall>k w. dict s k = Some w \<longrightarrow> dict s' k = Some w) \<and>
      (\<exists>t. runs s' = runs s @ t \<and> set t \<subseteq> N \<and> (\<forall>k \<in> set t. dict s k = None) \<and>
           (\<forall>k. dict s k = None \<longrightarrow> dict s' k \<noteq> None \<longrightarrow> k \<in> set t)))"

definition frame :: "string set \<Rightarrow> (fit, 'a) act \<Rightarrow> bool" where
  "frame N act = (\<forall>s v s'. act s = Inr (v, s') \<longrightarrow> later N s s')"

definition mframe :: "(population_model, 'a) act \<Rightarrow> bool" where
  "mframe act = (\<forall>m v m'. act m = Inr (v, m') \<longrightarrow> model_config_eq m m')"

text \<open>
  The fields in the order of their dependencies: the defining computation of a field
  reads fields of smaller rank only.
\<close>

definition field_rank :: "string \<Rightarrow> nat" where
  "field_rank name =
     (if name = ''brute_force'' \<or> name = ''best_cached_model_parameters''
         \<or> name = ''overloaded_estimate'' then 0
      else if name = ''ballpark_prediction'' then 1
      else if name = ''slope'' \<or> name = ''intercept'' then 2
      else if name = ''ballpark'' \<or> name = ''scaled_ballpark_prediction'' then 3
      else if name = ''gradient_descent'' \<or> name = ''global_opt'' then 4
      else if name = ''estimate'' then 5
      else if name = ''prediction'' then 6
      else if name = ''rss'' then 7
      else if name = ''rsquared'' then 8
      else 9)"

section \<open>A small concrete model\<close>

text \<open>
  A model with one free parameter \<open>a\<close> over two time points: the ballpark prediction is
  \<open>(a, 2a)\<close>, the full prediction \<open>(a * beta + baseline, 2a * beta + baseline)\<close>. In
  Python the ballpark method is \<open>generate_ballpark_prediction(self, a, data=None,
  unscaled=False)\<close>, which accepts the call of the brute-force search and the call of
  \<open>ballpark_prediction\<close>; its signature has three parameters. The error function is the
  sum of squared residuals, the local optimizer returns its seed and the global one a
  fixed point.
\<close>

definition example_stimulus :: stimulus where
  "example_stimulus = \<lparr>stim_arr = [], tr_length = Fin 1, screen_dva = Some (Fin 10)\<rparr>"

definition line_ballpark :: model_method where
  "line_ballpark model_dat args kwargs =
     (case args of Num a # _ \<Rightarrow> Inr [a, fadd a a] | _ \<Rightarrow> Inl TypeError)"

definition line_prediction :: model_method where
  "line_prediction model_dat args kwargs =
     (case args of
        [Num a, Num beta, Num baseline] \<Rightarrow>
          Inr [fadd (fmul a beta) baseline, fadd (fmul (fadd a a) beta) baseline]
      | _ \<Rightarrow> Inl TypeError)"

definition example_model :: population_model where
  "example_model =
     \<lparr>dict = Map.empty, runs = [], stimulus = example_stimulus, cached_model_path = None,
      bounded_amplitude = None, store_search_space = False, model_data = None,
      generate_ballpark_prediction = line_ballpark, generate_prediction = line_prediction,
      ballpark_signature_len = 3\<rparr>"

text \<open>
  The reductions of the example environment add from left to right, exactly. The arrays
  of the examples below are short and hold small integers and halves, on which the
  double-precision reductions are exact as well.
\<close>

definition exact_sum :: "fl list \<Rightarrow> fl" where
  "exact_sum xs = foldl fadd (Fin 0) xs"

definition exact_mean :: "fl list \<Rightarrow> fl" where
  "exact_mean xs = fdiv (exact_sum xs) (Fin (real (length xs)))"

definition squared_error :: "fl list \<Rightarrow> fl list \<Rightarrow> error + fl" where
  "squared_error dat p = and_then (np_sub dat p) (\<lambda>d. Inr (exact_sum (np_square d)))"

text \<open>
  The regression of the example environment, after \<open>scipy.stats.linregress(x, y)\<close>: empty
  inputs, inputs of different lengths, and more than one \<open>x\<close> value that are all
  identical (\<open>np.amax(x) == np.amin(x)\<close>, which is false for NaN) raise \<open>ValueError\<close>;
  otherwise the slope is the covariance of \<open>x\<close> and \<open>y\<close> over the variance of \<open>x\<close> (both
  normalised by the number of points) and the intercept is \<open>mean(y) - slope * mean(x)\<close>,
  so that a single point gives NaN for both.
\<close>

definition least_squares :: "fl list \<Rightarrow> fl list \<Rightarrow> error + fl \<times> fl" where
  "least_squares X y =
     (if X = [] \<or> y = [] then Inl ValueError
      else if 1 < length X \<and> \<not> isnan (hd X) \<and> list_all (\<lambda>a. a = hd X) X
      then Inl ValueError
      else if length X \<noteq> length y then Inl ValueError
      else
        let n = Fin (real (length X)); xmean = exact_mean X; ymean = exact_mean y;
            ssxm = fdiv (exact_sum (map (\<lambda>a. fmul (fsub a xmean) (fsub a xmean)) X)) n;
            ssxym = fdiv (exact_sum (map2 (\<lambda>a b. fmul (fsub a xmean) (fsub b ymean)) X y)) n;
            slope = fdiv ssxym ssxm
        in Inr (slope, fsub ymean (fmul slope xmean)))"

definition example_env :: env where
  "example_env =
     \<lparr>np_sum = exact_sum, np_mean = exact_mean, ne_sum = exact_sum,
      linregress = least_squares, error_function = squared_error,
      gradient_descent_search = (\<lambda>dat errf objective seed bs cs. Inr (OptimizeResult seed)),
      global_search = (\<lambda>dat errf objective bs cs popsize workers.
         Inr (OptimizeResult (arr [Fin 1, Fin 1, Fin 0]))),
      pickle_load = (\<lambda>path. Inl IOError),
      format_msg = (\<lambda>vox r e. ''VOXEL'')\<rparr>"

text \<open>
  The fit of the data \<open>(1, 2)\<close> over the grid \<open>{0, 1}\<close>, as a function of the arguments
  \<open>auto_fit\<close>, \<open>grid_only\<close>, \<open>fit_method\<close>, \<open>nuisance\<close> and \<open>verbose\<close>.
\<close>

definition example_init ::
  "bool \<Rightarrow> bool \<Rightarrow> string \<Rightarrow> (fl list \<Rightarrow> error + fl list) option \<Rightarrow> int \<Rightarrow> error + fit" where
  "example_init auto only fit_method_arg nuis verb =
     PopulationFit_init example_env example_model [Fin 1, Fin 2] [Pair 0 1] [(None, None)]
       (1, 2, 3) (Some 2) auto only fit_method_arg (Fin 2) nuis verb"

text \<open>The same fit as \<open>__init__\<close> leaves it when \<open>auto_fit\<close> is off.\<close>

definition example_fit :: "string \<Rightarrow> fit" where
  "example_fit name =
     \<lparr>dict = Map.empty, runs = [], grids = [Pair 0 1], bounds = [(None, None)],
      Ns = Some 2, voxel_index = (1, 2, 3), auto_fit = False, grid_only = False,
      outer_limit = Fin 2, model = example_model\<lparr>model_data := Some [Fin 1, Fin 2]\<rparr>,
      data = [Fin 1, Fin 2], nuisance = None, verbose = False, very_verbose = False,
      fit_method = name,
      constraints =
        [\<lparr>cfun = radial_distance, lb = NInf, ub = Fin 10\<rparr>,
         \<lparr>cfun = outer_distance (Fin 2), lb = NInf, ub = Fin 5\<rparr>]\<rparr>"

text \<open>A nuisance function that removes the mean \<open>3/2\<close> of the example data.\<close>

definition demean :: "fl list \<Rightarrow> error + fl list" where
  "demean dat = Inr (map (\<lambda>x. fsub x (exact_mean dat)) dat)"

text \<open>A model whose ballpark prediction is infinite at every combination.\<close>

definition overflowing_model :: population_model where
  "overflowing_model =
     example_model\<lparr>generate_ballpark_prediction :=
       (\<lambda>model_dat args kwargs. Inr [PInf, Fin 1])\<rparr>"

text \<open>A model whose ballpark prediction is \<open>a / a\<close>: NaN at \<open>a = 0\<close>.\<close>

definition ratio_model :: population_model where
  "ratio_model =
     example_model\<lparr>generate_ballpark_prediction :=
       (\<lambda>model_dat args kwargs.
          case args of Num a # _ \<Rightarrow> Inr [fdiv a a] | _ \<Rightarrow> Inl TypeError)\<rparr>"

text \<open>
  A model whose full prediction is the data the model holds, as a prediction scaled by a
  regression against \<open>self.data\<close> would be for data on the model's curve.
\<close>

definition echo_model :: population_model where
  "echo_model =
     example_model\<lparr>generate_prediction :=
       (\<lambda>model_dat args kwargs.
          case model_dat of Some d \<Rightarrow> Inr d | None \<Rightarrow> Inl AttributeError)\<rparr>"

section \<open>Basic facts\<close>

text \<open>
  A field of the fit that holds the model is independent of the two fields every object
  has, and conversely.
\<close>

lemma dict_model_update [simp]: "dict (s\<lparr>model := b\<rparr>) = dict s" for s :: fit
  by (cases s) simp

lemma runs_model_update [simp]: "runs (s\<lparr>model := b\<rparr>) = runs s" for s :: fit
  by (cases s) simp

lemma model_runs_update [simp]: "model (s\<lparr>runs := r\<rparr>) = model s" for s :: fit
  by (cases s) simp

lemma model_dict_update [simp]: "model (s\<lparr>dict := d\<rparr>) = model s" for s :: fit
  by (cases s) simp

lemma bnd_Inr: "bnd m f s = Inr r \<longleftrightarrow> (\<exists>v s1. m s = Inr (v, s1) \<and> f v s1 = Inr r)"
  by (auto simp: bnd_def split: sum.splits)

lemma lift_Inr: "lift r s = Inr (v, s') \<longleftrightarrow> (r = Inr v \<and> s' = s)"
  by (auto simp: lift_def split: sum.splits)

lemma ret_Inr: "ret v s = Inr (w, s') \<longleftrightarrow> (w = v \<and> s' = s)"
  by (auto simp: ret_def)

lemma and_then_Inr: "and_then r f = Inr y \<longleftrightarrow> (\<exists>v. r = Inr v \<and> f v = Inr y)"
  by (auto simp: and_then_def split: sum.splits)

lemma auto_attr_hit: "dict s n = Some v \<Longrightarrow> auto_attr n g s = Inr (v, s)"
  by (simp add: auto_attr_def)

lemma auto_attr_miss:
  "dict s n = None \<Longrightarrow>
   auto_attr n g s = Inr (v, s') \<longleftrightarrow>
     (\<exists>s1. g (s\<lparr>runs := runs s @ [n]\<rparr>) = Inr (v, s1) \<and> s' = s1\<lparr>dict := (dict s1)(n \<mapsto> v)\<rparr>)"
  by (auto simp: auto_attr_def split: sum.splits)

lemma auto_attr_stored: "auto_attr n g s = Inr (v, s') \<Longrightarrow> dict s' n = Some v"
  by (auto simp: auto_attr_def split: option.splits sum.splits)

section \<open>Lazy reads keep the configuration and every stored field\<close>

lemma model_config_eq_refl: "model_config_eq m m"
  by (simp add: model_config_eq_def)

lemma model_config_eq_trans:
  "model_config_eq a b \<Longrightarrow> model_config_eq b c \<Longrightarrow> model_config_eq a c"
  by (simp add: model_config_eq_def)

lemma config_eq_refl: "config_eq s s"
  by (simp add: config_eq_def model_config_eq_refl)

lemma config_eq_trans: "config_eq a b \<Longrightarrow> config_eq b c \<Longrightarrow> config_eq a c"
  by (auto simp: config_eq_def intro: model_config_eq_trans)

lemma later_refl: "later N s s"
  by (simp add: later_def config_eq_refl)

lemma later_mono: "later N s s' \<Longrightarrow> N \<subseteq> M \<Longrightarrow> later M s s'"
  unfolding later_def by blast

lemma later_config: "later N s s' \<Longrightarrow> config_eq s s'"
  by (simp add: later_def)

lemma later_stored: "later N s s' \<Longrightarrow> dict s k = Some w \<Longrightarrow> dict s' k = Some w"
  by (simp add: later_def)

lemma later_trans:
  assumes "later N a b" "later N b c"
  shows "later N a c"
proof -
  from assms(1) obtain t where t: "runs b = runs a @ t" "set t \<subseteq> N"
      "\<forall>k \<in> set t. dict a k = None" "\<forall>k. dict a k = None \<longrightarrow> dict b k \<noteq> None \<longrightarrow> k \<in> set t"
    unfolding later_def by blast
  from assms(2) obtain u where u: "runs c = runs b @ u" "set u \<subseteq> N"
      "\<forall>k \<in> set u. dict b k = None" "\<forall>k. dict b k = None \<longrightarrow> dict c k \<noteq> None \<longrightarrow> k \<in> set u"
    unfolding later_def by blast
  have keep: "\<forall>k w. dict a k = Some w \<longrightarrow> dict b k = Some w"
    using assms(1) by (simp add: later_def)
  have fresh: "\<forall>k \<in> set u. dict a k = None"
  proof
    fix k assume "k \<in> set u"
    then have "dict b k = None" using u(3) by blast
    then show "dict a k = None" using keep by (cases "dict a k") auto
  qed
  have new: "\<forall>k. dict a k = None \<longrightarrow> dict c k \<noteq> None \<longrightarrow> k \<in> set (t @ u)"
  proof (intro allI impI)
    fix k assume k: "dict a k = None" "dict c k \<noteq> None"
    show "k \<in> set (t @ u)"
    proof (cases "dict b k")
      case None
      then show ?thesis using u(4) k(2) by simp
    next
      case (Some w)
      then show ?thesis using t(4) k(1) by simp
    qed
  qed
  have "runs c = runs a @ (t @ u)" "set (t @ u) \<subseteq> N" "\<forall>k \<in> set (t @ u). dict a k = None"
    using t u fresh by auto
  moreover have "config_eq a c"
    using assms config_eq_trans by (auto simp: later_def)
  moreover have "\<forall>k w. dict a k = Some w \<longrightarrow> dict c k = Some w"
    using assms by (simp add: later_def)
  ultimately show ?thesis
    using new unfolding later_def by blast
qed

lemma frame_ret: "frame N (ret v)"
  by (simp add: frame_def ret_Inr later_refl)

lemma frame_ret_state: "frame N (\<lambda>s. ret (v s) s)"
  by (simp add: frame_def ret_Inr later_refl)

lemma frame_lift: "frame N (lift r)"
  by (simp add: frame_def lift_Inr later_refl)

lemma frame_lift_state: "frame N (\<lambda>s. lift (r s) s)"
  by (simp add: frame_def lift_Inr later_refl)

lemma frame_bnd: "frame N m \<Longrightarrow> (\<And>v. frame N (f v)) \<Longrightarrow> frame N (bnd m f)"
  unfolding frame_def bnd_Inr by (blast intro: later_trans)

lemma frame_mono: "frame N act \<Longrightarrow> N \<subseteq> M \<Longrightarrow> frame M act"
  unfolding frame_def by (blast intro: later_mono)

lemma frame_choice:
  "(\<And>s. act s = a s \<or> act s = b s) \<Longrightarrow> frame N a \<Longrightarrow> frame N b \<Longrightarrow> frame N act"
  unfolding frame_def by metis

lemma frame_auto_attr:
  assumes "frame N g"
  shows "frame (insert n N) (auto_attr n g)"
  unfolding frame_def
proof (intro allI impI)
  fix s v s'
  assume run: "auto_attr n g s = Inr (v, s')"
  show "later (insert n N) s s'"
  proof (cases "dict s n")
    case (Some w)
    then show ?thesis using run by (simp add: auto_attr_hit later_refl)
  next
    case None
    then obtain s1 where g: "g (s\<lparr>runs := runs s @ [n]\<rparr>) = Inr (v, s1)"
      and s': "s' = s1\<lparr>dict := (dict s1)(n \<mapsto> v)\<rparr>"
      using run by (auto simp: auto_attr_miss)
    from assms g have l: "later N (s\<lparr>runs := runs s @ [n]\<rparr>) s1"
      by (simp add: frame_def)
    then obtain t where t: "runs s1 = (runs s @ [n]) @ t" "set t \<subseteq> N"
        "\<forall>k \<in> set t. dict s k = None"
        "\<forall>k. dict s k = None \<longrightarrow> dict s1 k \<noteq> None \<longrightarrow> k \<in> set t"
      unfolding later_def by auto
    have "config_eq s s'"
      using l by (simp add: later_def config_eq_def s')
    moreover have "\<forall>k w. dict s k = Some w \<longrightarrow> dict s' k = Some w"
      using l None by (auto simp: later_def s')
    moreover have "runs s' = runs s @ (n # t)" "set (n # t) \<subseteq> insert n N"
        "\<forall>k \<in> set (n # t). dict s k = None"
        "\<forall>k. dict s k = None \<longrightarrow> dict s' k \<noteq> None \<longrightarrow> k \<in> set (n # t)"
      using t None by (auto simp: s')
    ultimately show ?thesis unfolding later_def by blast
  qed
qed

lemma frame_on_model: "mframe act \<Longrightarrow> frame N (on_model act)"
  by (auto simp: frame_def mframe_def on_model_def later_def config_eq_def split: sum.splits)

lemma mframe_lift: "mframe (lift r)"
  by (simp add: mframe_def lift_Inr model_config_eq_refl)

lemma mframe_bnd: "mframe m \<Longrightarrow> (\<And>v. mframe (f v)) \<Longrightarrow> mframe (bnd m f)"
  unfolding mframe_def bnd_Inr by (blast intro: model_config_eq_trans)

lemma mframe_auto_attr: "mframe g \<Longrightarrow> mframe (auto_attr n g)"
  by (auto simp: mframe_def auto_attr_def model_config_eq_def split: option.splits sum.splits)

lemma mframe_resurrect: "mframe (resurrect_cached_model env)"
  unfolding resurrect_cached_model_def
  by (rule mframe_auto_attr)
     (auto simp: mframe_def resurrect_cached_model_get_def lift_Inr model_config_eq_refl
           split: option.splits)

lemma mframe_timeseries: "mframe (cached_model_timeseries env)"
  unfolding cached_model_timeseries_def cached_model_timeseries_get_def
  by (intro mframe_auto_attr mframe_bnd mframe_resurrect mframe_lift)

lemma mframe_parameters: "mframe (cached_model_parameters env)"
  unfolding cached_model_parameters_def cached_model_parameters_get_def
  by (intro mframe_auto_attr mframe_bnd mframe_resurrect mframe_lift)

text \<open>
  The defining computation of a field reads fields of smaller rank; reading the field
  therefore runs computations of rank up to its own.
\<close>

lemma frame_field:
  "frame {k. field_rank k < field_rank n} g \<Longrightarrow>
   frame {k. field_rank k \<le> field_rank n} (auto_attr n g)"
  by (rule frame_mono[OF frame_auto_attr]) auto

lemma frame_below:
  "frame {k. field_rank k \<le> r} act \<Longrightarrow> r < r' \<Longrightarrow> frame {k. field_rank k < r'} act"
  by (rule frame_mono) auto

lemma frame_best_cached_get:
  "frame {k. field_rank k < field_rank ''best_cached_model_parameters''}
     (best_cached_model_parameters_get env)"
  unfolding best_cached_model_parameters_get_def
  by (intro frame_bnd frame_on_model mframe_timeseries mframe_parameters frame_lift
        frame_lift_state)

lemma frame_best_cached:
  "frame {k. field_rank k \<le> field_rank ''best_cached_model_parameters''}
     (best_cached_model_parameters env)"
  unfolding best_cached_model_parameters_def by (rule frame_field[OF frame_best_cached_get])

lemma frame_brute_force_get:
  "frame {k. field_rank k < field_rank ''brute_force''} (brute_force_get env)"
  by (simp add: frame_def brute_force_get_def lift_Inr later_refl)

lemma frame_brute_force:
  "frame {k. field_rank k \<le> field_rank ''brute_force''} (brute_force env)"
  unfolding brute_force_def by (rule frame_field[OF frame_brute_force_get])

lemma frame_ballpark_prediction_get:
  "frame {k. field_rank k < field_rank ''ballpark_prediction''} (ballpark_prediction_get env)"
  unfolding ballpark_prediction_get_def
  by (intro frame_bnd frame_below[OF frame_brute_force] frame_lift frame_lift_state)
     (simp_all add: field_rank_def)

lemma frame_ballpark_prediction:
  "frame {k. field_rank k \<le> field_rank ''ballpark_prediction''} (ballpark_prediction env)"
  unfolding ballpark_prediction_def by (rule frame_field[OF frame_ballpark_prediction_get])

lemma frame_slope_get: "frame {k. field_rank k < field_rank ''slope''} (slope_get env)"
  unfolding slope_get_def
  by (intro frame_bnd frame_below[OF frame_ballpark_prediction] frame_lift_state)
     (simp_all add: field_rank_def)

lemma frame_slope: "frame {k. field_rank k \<le> field_rank ''slope''} (slope env)"
  unfolding slope_def by (rule frame_field[OF frame_slope_get])

lemma frame_intercept_get:
  "frame {k. field_rank k < field_rank ''intercept''} (intercept_get env)"
  unfolding intercept_get_def
  by (intro frame_bnd frame_below[OF frame_ballpark_prediction] frame_lift_state)
     (simp_all add: field_rank_def)

lemma frame_intercept: "frame {k. field_rank k \<le> field_rank ''intercept''} (intercept env)"
  unfolding intercept_def by (rule frame_field[OF frame_intercept_get])

lemma frame_scaled_get:
  "frame {k. field_rank k < field_rank ''scaled_ballpark_prediction''}
     (scaled_ballpark_prediction_get env)"
  unfolding scaled_ballpark_prediction_get_def
  by (intro frame_bnd frame_below[OF frame_ballpark_prediction] frame_below[OF frame_slope]
        frame_below[OF frame_intercept] frame_lift)
     (simp_all add: field_rank_def)

lemma frame_scaled:
  "frame {k. field_rank k \<le> field_rank ''scaled_ballpark_prediction''}
     (scaled_ballpark_prediction env)"
  unfolding scaled_ballpark_prediction_def by (rule frame_field[OF frame_scaled_get])

lemma frame_ballpark_get: "frame {k. field_rank k < field_rank ''ballpark''} (ballpark_get env)"
proof -
  let ?N = "{k. field_rank k < field_rank ''ballpark''}"
  let ?search = "bnd (brute_force env) (\<lambda>bf.
           bnd (lift (index bf 0)) (\<lambda>x0.
           bnd (slope env) (\<lambda>sl.
           bnd (intercept env) (\<lambda>ic. ret (np_append x0 [sl, ic])))))"
  let ?tile = "\<lambda>s. ret (Seq (replicate (ballpark_signature_len (model s) + 2) PyNone)) s"
  let ?rest = "\<lambda>s. if cached_model_path (model s) \<noteq> None
      then best_cached_model_parameters env s else ?search s"
  have search: "frame ?N ?search"
    by (intro frame_bnd frame_below[OF frame_brute_force] frame_below[OF frame_slope]
          frame_below[OF frame_intercept] frame_lift frame_ret)
       (simp_all add: field_rank_def)
  have cached: "frame ?N (best_cached_model_parameters env)"
    by (rule frame_below[OF frame_best_cached]) (simp add: field_rank_def)
  have rest: "frame ?N ?rest"
    by (rule frame_choice[OF _ cached search]) simp
  have tile: "frame ?N ?tile"
    by (rule frame_ret_state)
  show ?thesis
    by (rule frame_choice[OF _ tile rest]) (simp add: ballpark_get_def)
qed

lemma frame_ballpark: "frame {k. field_rank k \<le> field_rank ''ballpark''} (ballpark env)"
  unfolding ballpark_def by (rule frame_field[OF frame_ballpark_get])

lemma frame_gradient_descent_get:
  "frame {k. field_rank k < field_rank ''gradient_descent''} (gradient_descent_get env)"
  unfolding gradient_descent_get_def
  by (intro frame_bnd frame_below[OF frame_ballpark] frame_lift_state)
     (simp_all add: field_rank_def)

lemma frame_gradient_descent:
  "frame {k. field_rank k \<le> field_rank ''gradient_descent''} (gradient_descent env)"
  unfolding gradient_descent_def by (rule frame_field[OF frame_gradient_descent_get])

lemma frame_global_opt_get:
  "frame {k. field_rank k < field_rank ''global_opt''} (global_opt_get env)"
  by (simp add: frame_def global_opt_get_def lift_Inr later_refl)

lemma frame_global_opt: "frame {k. field_rank k \<le> field_rank ''global_opt''} (global_opt env)"
  unfolding global_opt_def by (rule frame_field[OF frame_global_opt_get])

lemma frame_overloaded_estimate_get:
  "frame {k. field_rank k < field_rank ''overloaded_estimate''} overloaded_estimate_get"
  unfolding overloaded_estimate_get_def by (rule frame_ret)

lemma frame_overloaded_estimate:
  "frame {k. field_rank k \<le> field_rank ''overloaded_estimate''} overloaded_estimate"
  unfolding overloaded_estimate_def by (rule frame_field[OF frame_overloaded_estimate_get])

lemma frame_estimate_get: "frame {k. field_rank k < field_rank ''estimate''} (estimate_get env)"
proof -
  let ?N = "{k. field_rank k < field_rank ''estimate''}"
  have a: "frame ?N (bnd (global_opt env) (\<lambda>r. lift (attr_x r)))"
    by (intro frame_bnd frame_below[OF frame_global_opt] frame_lift)
       (simp_all add: field_rank_def)
  have b: "frame ?N (bnd (gradient_descent env) (\<lambda>r. lift (attr_x r)))"
    by (intro frame_bnd frame_below[OF frame_gradient_descent] frame_lift)
       (simp_all add: field_rank_def)
  show ?thesis
    by (rule frame_choice[OF _ a b]) (simp add: estimate_get_def)
qed

lemma frame_estimate: "frame {k. field_rank k \<le> field_rank ''estimate''} (estimate env)"
  unfolding estimate_def by (rule frame_field[OF frame_estimate_get])

lemma frame_prediction_get:
  "frame {k. field_rank k < field_rank ''prediction''} (prediction_get env)"
proof -
  let ?N = "{k. field_rank k < field_rank ''prediction''}"
  let ?call = "\<lambda>v. bnd (lift (unpack v)) (\<lambda>args s'.
             lift (to_val (method_of (model s') generate_prediction args [])) s')"
  have a: "frame ?N (bnd (ballpark env) ?call)"
    by (intro frame_bnd frame_below[OF frame_ballpark] frame_lift frame_lift_state)
       (simp_all add: field_rank_def)
  have b: "frame ?N (bnd (estimate env) ?call)"
    by (intro frame_bnd frame_below[OF frame_estimate] frame_lift frame_lift_state)
       (simp_all add: field_rank_def)
  show ?thesis
    by (rule frame_choice[OF _ a b]) (simp add: prediction_get_def)
qed

lemma frame_prediction: "frame {k. field_rank k \<le> field_rank ''prediction''} (prediction env)"
  unfolding prediction_def by (rule frame_field[OF frame_prediction_get])

lemma frame_rss_get: "frame {k. field_rank k < field_rank ''rss''} (rss_get env)"
  unfolding rss_get_def
  by (intro frame_bnd frame_below[OF frame_prediction] frame_lift_state)
     (simp_all add: field_rank_def)

lemma frame_rss: "frame {k. field_rank k \<le> field_rank ''rss''} (rss env)"
  unfolding rss_def by (rule frame_field[OF frame_rss_get])

lemma frame_rsquared_get: "frame {k. field_rank k < field_rank ''rsquared''} (rsquared_get env)"
  unfolding rsquared_get_def
  by (intro frame_bnd frame_below[OF frame_rss] frame_lift_state)
     (simp_all add: field_rank_def)

lemma frame_rsquared: "frame {k. field_rank k \<le> field_rank ''rsquared''} (rsquared env)"
  unfolding rsquared_def by (rule frame_field[OF frame_rsquared_get])

lemma frame_msg_get: "frame {k. field_rank k < field_rank ''msg''} (msg_get env)"
  unfolding frame_def
proof (intro allI impI)
  fix s v s'
  assume a: "msg_get env s = Inr (v, s')"
  let ?N = "{k. field_rank k < field_rank ''msg''}"
  let ?tail = "bnd (rsquared env) (\<lambda>r.
           bnd (estimate env) (\<lambda>e.
             ret (Str (format_msg env (voxel_index s) r e))))"
  let ?over = "bnd (rsquared env) (\<lambda>r.
                  bnd overloaded_estimate (\<lambda>oe'.
                    ret (Str (format_msg env (voxel_index s) r oe'))))"
  have tail: "frame ?N ?tail"
    by (intro frame_bnd frame_below[OF frame_rsquared] frame_below[OF frame_estimate] frame_ret)
       (simp_all add: field_rank_def)
  have over: "frame ?N ?over"
    by (intro frame_bnd frame_below[OF frame_rsquared]
          frame_below[OF frame_overloaded_estimate] frame_ret)
       (simp_all add: field_rank_def)
  have first: "frame ?N overloaded_estimate"
    by (rule frame_below[OF frame_overloaded_estimate]) (simp add: field_rank_def)
  have auto: "frame ?N (bnd overloaded_estimate (\<lambda>oe. if oe \<noteq> PyNone then ?over else ?tail))"
    by (rule frame_bnd[OF first]) (simp add: over tail)
  from a have "bnd overloaded_estimate (\<lambda>oe. if oe \<noteq> PyNone then ?over else ?tail) s = Inr (v, s')
      \<or> ?tail s = Inr (v, s')"
    by (simp add: msg_get_def split: if_splits)
  then show "later ?N s s'"
    using auto tail unfolding frame_def by blast
qed

lemma frame_msg: "frame {k. field_rank k \<le> field_rank ''msg''} (msg env)"
  unfolding msg_def by (rule frame_field[OF frame_msg_get])

lemmas example_defs = example_init_def example_stimulus_def line_ballpark_def
  line_prediction_def example_model_def squared_error_def least_squares_def example_env_def
  example_fit_def demean_def overflowing_model_def ratio_model_def
  echo_model_def

lemmas run_defs = PopulationFit_init_def new_fit_def set_verbose_def and_then_def automatic_fit_def
  bnd_def ret_def lift_def auto_attr_def ballpark_def ballpark_get_def brute_force_def
  brute_force_get_def brute_force_search_def parameter_space_def np_linspace_def
  combos_of_def score_def better_def slope_def slope_get_def intercept_def intercept_get_def
  ballpark_prediction_def ballpark_prediction_get_def regress_def estimate_def
  estimate_get_def gradient_descent_def gradient_descent_get_def global_opt_def
  global_opt_get_def overloaded_estimate_def overloaded_estimate_get_def prediction_def
  prediction_get_def rss_def rss_get_def rsquared_def rsquared_get_def r2_raw_def
  r2_clean_def flush_def to_val_def arr_def np_sub_def exact_sum_def np_square_def
  exact_mean_def ss_tot_def
  fsub_def np_maximum_def np_minimum_def signed_inf_def make_constraints_def msg_def
  msg_get_def read_field_def method_of_def eval_nat_numeral

section \<open>Memoized fields\<close>

lemma read_field_known:
  assumes "read_field env n s = Inr (v, s')"
  shows "\<exists>g. read_field env n = auto_attr n g \<and> frame {k. field_rank k < field_rank n} g"
proof -
  from assms have
    "n = ''best_cached_model_parameters'' \<or> n = ''brute_force'' \<or> n = ''ballpark'' \<or>
     n = ''gradient_descent'' \<or> n = ''global_opt'' \<or> n = ''overloaded_estimate'' \<or>
     n = ''estimate'' \<or> n = ''ballpark_prediction'' \<or> n = ''scaled_ballpark_prediction'' \<or>
     n = ''slope'' \<or> n = ''intercept'' \<or> n = ''prediction'' \<or> n = ''rsquared'' \<or>
     n = ''rss'' \<or> n = ''msg''"
    by (simp add: read_field_def split: if_splits)
  then show ?thesis
    apply (elim disjE)
    apply (simp_all add: read_field_def)
    unfolding best_cached_model_parameters_def brute_force_def ballpark_def
      gradient_descent_def global_opt_def overloaded_estimate_def estimate_def
      ballpark_prediction_def scaled_ballpark_prediction_def slope_def intercept_def
      prediction_def rsquared_def rss_def msg_def
    by (rule exI conjI refl frame_best_cached_get frame_brute_force_get frame_ballpark_get
        frame_gradient_descent_get frame_global_opt_get frame_overloaded_estimate_get
        frame_estimate_get frame_ballpark_prediction_get frame_scaled_get frame_slope_get
        frame_intercept_get frame_prediction_get frame_rsquared_get frame_rss_get
        frame_msg_get)+
qed

lemma frame_read_field: "frame UNIV (read_field env n)"
  unfolding frame_def
proof (intro allI impI)
  fix s v s'
  assume a: "read_field env n s = Inr (v, s')"
  then obtain g where g: "read_field env n = auto_attr n g"
      "frame {k. field_rank k < field_rank n} g"
    using read_field_known by blast
  have "frame (insert n {k. field_rank k < field_rank n}) (auto_attr n g)"
    by (rule frame_auto_attr[OF g(2)])
  then have "later (insert n {k. field_rank k < field_rank n}) s s'"
    using a g(1) by (simp add: frame_def)
  then show "later UNIV s s'"
    by (rule later_mono) simp
qed

lemma frame_read_fields: "frame UNIV (read_fields env ns)"
  by (induction ns) (auto intro!: frame_ret frame_bnd frame_read_field)

lemma later_not_rerun:
  assumes "later N s s'" "dict s n \<noteq> None"
  shows "count_list (runs s') n = count_list (runs s) n"
proof -
  from assms(1) obtain t where t: "runs s' = runs s @ t" "\<forall>k \<in> set t. dict s k = None"
    unfolding later_def by blast
  have "n \<notin> set t" using t(2) assms(2) by auto
  then show ?thesis using t(1) by (simp add: count_list_0_iff)
qed

text \<open>
  C5, as amended. A read of a memoized field that is not yet stored on the fit runs the
  defining computation exactly once and stores the result. After any further lazy reads
  of memoized fields, reading the field again returns that value, leaves the fit as it is
  and does not run the defining computation again. On any object, a read through
  \<open>auto_attr\<close> leaves a state in which a further read returns the same value whatever
  the defining computation is. (What the constructor overwrites at the end of an
  automatic fit is not covered: see the counterexample.)
\<close>

theorem memoized_field_read_once:
  fixes s :: fit and obj :: "'a pyobject_scheme"
  assumes unset: "dict s n = None"
      and first: "read_field env n s = Inr (v, s1)"
      and more: "read_fields env ns s1 = Inr (vs, s2)"
  shows "count_list (runs s1) n = Suc (count_list (runs s) n) \<and> dict s1 n = Some v \<and>
         read_field env n s2 = Inr (v, s2) \<and>
         count_list (runs s2) n = count_list (runs s1) n \<and>
         (auto_attr k getter obj = Inr (w, obj') \<longrightarrow>
            (\<forall>getter'. auto_attr k getter' obj' = Inr (w, obj')))"
proof -
  from first obtain g where g: "read_field env n = auto_attr n g"
      "frame {k. field_rank k < field_rank n} g"
    using read_field_known by blast
  from first g(1) unset obtain s0 where s0: "g (s\<lparr>runs := runs s @ [n]\<rparr>) = Inr (v, s0)"
      "s1 = s0\<lparr>dict := (dict s0)(n \<mapsto> v)\<rparr>"
    by (auto simp: auto_attr_miss)
  from g(2) s0(1) have "later {k. field_rank k < field_rank n} (s\<lparr>runs := runs s @ [n]\<rparr>) s0"
    by (simp add: frame_def)
  then obtain t where t: "runs s0 = (runs s @ [n]) @ t" "set t \<subseteq> {k. field_rank k < field_rank n}"
    unfolding later_def by auto
  then have "n \<notin> set t" by auto
  then have once: "count_list (runs s1) n = Suc (count_list (runs s) n)"
    using t(1) s0(2) by (simp add: count_list_0_iff)
  have stored: "dict s1 n = Some v"
    using s0(2) by simp
  have l: "later UNIV s1 s2"
    using frame_read_fields more unfolding frame_def by blast
  then have "dict s2 n = Some v"
    using stored by (rule later_stored)
  then have again: "read_field env n s2 = Inr (v, s2)"
    by (simp add: g(1) auto_attr_hit)
  have same: "count_list (runs s2) n = count_list (runs s1) n"
    using l stored by (intro later_not_rerun) simp_all
  have generic: "auto_attr k getter obj = Inr (w, obj') \<longrightarrow>
      (\<forall>getter'. auto_attr k getter' obj' = Inr (w, obj'))"
    by (auto dest: auto_attr_stored simp: auto_attr_hit)
  show ?thesis
    using once stored again same generic by blast
qed

theorem memoized_field_read_once_witness:
  "\<exists>v s1 vs s2.
     read_field example_env ''ballpark'' (example_fit ''grid_only'') = Inr (v, s1) \<and>
     read_fields example_env [''prediction'', ''rss''] s1 = Inr (vs, s2) \<and>
     v = arr [Fin 1, Fin 1, Fin 0] \<and>
     count_list (runs s1) ''ballpark'' = 1 \<and> dict s1 ''ballpark'' = Some v \<and>
     read_field example_env ''ballpark'' s2 = Inr (v, s2) \<and>
     count_list (runs s2) ''ballpark'' = 1"
proof -
  have "\<exists>v s1 vs s2.
     read_field example_env ''ballpark'' (example_fit ''grid_only'') = Inr (v, s1) \<and>
     read_fields example_env [''prediction'', ''rss''] s1 = Inr (vs, s2) \<and>
     v = arr [Fin 1, Fin 1, Fin 0]"
    by (simp add: run_defs example_defs)
  then obtain v s1 vs s2 where
    a: "read_field example_env ''ballpark'' (example_fit ''grid_only'') = Inr (v, s1)" and
    b: "read_fields example_env [''prediction'', ''rss''] s1 = Inr (vs, s2)" and
    c: "v = arr [Fin 1, Fin 1, Fin 0]"
    by blast
  have unset: "dict (example_fit ''grid_only'') ''ballpark'' = None"
    by (simp add: example_fit_def)
  have zero: "count_list (runs (example_fit ''grid_only'')) ''ballpark'' = 0"
    by (simp add: example_fit_def)
  note once = memoized_field_read_once[OF unset a b,
      where k = "''ballpark''" and getter = "ret PyNone" and obj = s1 and w = PyNone
        and obj' = s1]
  from once zero a b c show ?thesis
    by auto
qed

text \<open>
  C5, the counterexample. In the example fit with an automatic two-step fit the
  brute-force search returns the combination \<open>(1)\<close> with error 0 and runs once, in the
  constructor; a read of \<open>brute_force\<close> after construction returns four times \<open>None\<close>.
\<close>

theorem memoized_field_overwritten_by_flush:
  "brute_force_search [Fin 1, Fin 2] squared_error (line_ballpark (Some [Fin 1, Fin 2]))
     [Pair 0 1] (Some 2) = Inr (Seq [arr [Fin 1], Num (Fin 0)]) \<and>
   and_then (example_init True False ''2step'' None 0) (\<lambda>s.
     and_then (brute_force example_env s) (\<lambda>r.
       Inr (count_list (runs s) ''brute_force'', fst r)))
     = Inr (1, Seq [PyNone, PyNone, PyNone, PyNone])"
  by (simp add: run_defs example_defs)

section \<open>Goodness of fit\<close>

lemma r2_clean_unit: "\<exists>r. r2_clean x = Fin r \<and> 0 \<le> r \<and> r \<le> 1"
  by (cases x) (auto simp: r2_clean_def np_minimum_def np_maximum_def)

lemma r2_clean_nonfinite: "\<not> isfinite x \<Longrightarrow> r2_clean x = Fin 0"
  by (cases x) (auto simp: r2_clean_def)

lemma r2_zero_denominator:
  assumes "ss_tot env dat = Fin 0"
  shows "\<not> isfinite (r2_raw env x dat)"
  using assms by (cases x) (auto simp: r2_raw_def fsub_def signed_inf_def)

text \<open>
  C3. When the field \<open>rsquared\<close> is computed, its value is a finite number between 0
  and 1, whatever the reductions of NumPy return: it is the cleaned-up coefficient of the
  stored residual sum of squares and the data, and it is 0 whenever the raw coefficient
  is not finite. The raw coefficient is not finite, and the field 0, whenever the
  denominator, the sum of the squared deviations of the data from their mean, is zero.
  Once the residual sum of squares is there as a number, the computation does not raise.
\<close>

theorem rsquared_in_unit_interval:
  assumes unset: "dict s ''rsquared'' = None"
  shows "(rsquared env s = Inr (v, s') \<longrightarrow>
           (\<exists>x r. dict s' ''rss'' = Some (Num x) \<and> v = Num (Fin r) \<and>
              Fin r = r2_clean (r2_raw env x (data s)) \<and> 0 \<le> r \<and> r \<le> 1 \<and>
              (\<not> isfinite (r2_raw env x (data s)) \<longrightarrow> r = 0) \<and>
              (ss_tot env (data s) = Fin 0 \<longrightarrow>
                 \<not> isfinite (r2_raw env x (data s)) \<and> r = 0))) \<and>
         (dict s ''rss'' = Some (Num y) \<longrightarrow>
           (\<exists>r s''. rsquared env s = Inr (Num (Fin r), s'') \<and> 0 \<le> r \<and> r \<le> 1))"
proof (intro conjI impI)
  assume read: "rsquared env s = Inr (v, s')"
  let ?s0 = "s\<lparr>runs := runs s @ [''rsquared'']\<rparr>"
  from read unset obtain s1 where s1: "rsquared_get env ?s0 = Inr (v, s1)"
      "s' = s1\<lparr>dict := (dict s1)(''rsquared'' \<mapsto> v)\<rparr>"
    by (auto simp: rsquared_def auto_attr_miss)
  from s1(1) obtain rv x where rv: "rss env ?s0 = Inr (rv, s1)" "as_float rv = Inr x"
      "v = Num (r2_clean (r2_raw env x (data s1)))"
    by (auto simp: rsquared_get_def bnd_Inr lift_Inr and_then_Inr)
  have "rv = Num x"
    using rv(2) by (cases rv) auto
  moreover have "dict s1 ''rss'' = Some rv"
    using rv(1) unfolding rss_def by (rule auto_attr_stored)
  ultimately have stored: "dict s' ''rss'' = Some (Num x)"
    using s1(2) by simp
  have "later {k. field_rank k \<le> field_rank ''rss''} ?s0 s1"
    using frame_rss rv(1) unfolding frame_def by blast
  then have dat: "data s1 = data s"
    by (simp add: later_def config_eq_def)
  obtain r where r: "r2_clean (r2_raw env x (data s)) = Fin r" "0 \<le> r" "r \<le> 1"
    using r2_clean_unit by blast
  have "\<not> isfinite (r2_raw env x (data s)) \<longrightarrow> r = 0"
    using r(1) r2_clean_nonfinite by force
  moreover have "ss_tot env (data s) = Fin 0 \<longrightarrow>
      \<not> isfinite (r2_raw env x (data s)) \<and> r = 0"
    using r(1) r2_clean_nonfinite r2_zero_denominator by force
  ultimately show "\<exists>x r. dict s' ''rss'' = Some (Num x) \<and> v = Num (Fin r) \<and>
      Fin r = r2_clean (r2_raw env x (data s)) \<and> 0 \<le> r \<and> r \<le> 1 \<and>
      (\<not> isfinite (r2_raw env x (data s)) \<longrightarrow> r = 0) \<and>
      (ss_tot env (data s) = Fin 0 \<longrightarrow> \<not> isfinite (r2_raw env x (data s)) \<and> r = 0)"
    using stored rv(3) dat r by auto
next
  assume have_rss: "dict s ''rss'' = Some (Num y)"
  obtain r where r: "r2_clean (r2_raw env y (data s)) = Fin r" "0 \<le> r" "r \<le> 1"
    using r2_clean_unit by blast
  have "rsquared env s = Inr (Num (Fin r),
      s\<lparr>runs := runs s @ [''rsquared''], dict := (dict s)(''rsquared'' \<mapsto> Num (Fin r))\<rparr>)"
    using unset have_rss r(1)
    by (simp add: rsquared_def rsquared_get_def rss_def auto_attr_def bnd_def lift_def
        and_then_def)
  then show "\<exists>r s''. rsquared env s = Inr (Num (Fin r), s'') \<and> 0 \<le> r \<and> r \<le> 1"
    using r by blast
qed

theorem rsquared_in_unit_interval_witness:
  "\<exists>v s' x.
     rsquared example_env ((example_fit ''grid_only'')\<lparr>data := [Fin 3, Fin 3]\<rparr>) = Inr (v, s') \<and>
     dict s' ''rss'' = Some (Num x) \<and> ss_tot example_env [Fin 3, Fin 3] = Fin 0 \<and>
     r2_raw example_env x [Fin 3, Fin 3] = NaN \<and> v = Num (Fin 0)"
proof -
  let ?s = "(example_fit ''grid_only'')\<lparr>data := [Fin 3, Fin 3]\<rparr>"
  have "\<exists>v s'. rsquared example_env ?s = Inr (v, s') \<and> dict s' ''rss'' = Some (Num (Fin 0))"
    by (simp add: run_defs example_defs)
  then obtain v s' where
    a: "rsquared example_env ?s = Inr (v, s')" and b: "dict s' ''rss'' = Some (Num (Fin 0))"
    by blast
  have unset: "dict ?s ''rsquared'' = None"
    by (simp add: example_fit_def)
  have zero: "ss_tot example_env [Fin 3, Fin 3] = Fin 0"
    by (simp add: run_defs example_defs)
  have raw: "r2_raw example_env (Fin 0) [Fin 3, Fin 3] = NaN"
    by (simp add: run_defs example_defs)
  have dat: "data ?s = [Fin 3, Fin 3]"
    by simp
  from rsquared_in_unit_interval[OF unset, of example_env v s' "Fin 0"] a b zero dat
  have "v = Num (Fin 0)"
    by auto
  with a b zero raw show ?thesis
    by blast
qed

section \<open>Construction\<close>

lemma frame_config: "frame N act \<Longrightarrow> act s = Inr (v, s') \<Longrightarrow> config_eq s s'"
  unfolding frame_def by (blast intro: later_config)

lemma frame_runs: "frame N act \<Longrightarrow> act s = Inr (v, s') \<Longrightarrow> set (runs s) \<subseteq> set (runs s')"
  unfolding frame_def later_def by fastforce

lemma flush_config: "flush s = Inr (v, s') \<Longrightarrow> config_eq s s' \<and> runs s' = runs s"
  by (auto simp: flush_def config_eq_def model_config_eq_refl split: if_splits)

lemma automatic_fit_config:
  assumes "automatic_fit env fm s = Inr (v, s')"
  shows "config_eq s s' \<and> set (runs s) \<subseteq> set (runs s')"
proof -
  from assms obtain v1 s1 v2 s2 v3 s3 v4 s4 where
    a1: "(if fm \<noteq> ''global_opt'' then ballpark env else ret PyNone) s = Inr (v1, s1)" and
    a2: "(if fm \<noteq> ''grid_only'' then bnd (estimate env) (\<lambda>_. overloaded_estimate)
          else ret PyNone) s1 = Inr (v2, s2)" and
    a3: "(if fm \<noteq> ''grid_only'' then bnd (rss env) (\<lambda>_. rsquared env) else ret PyNone) s2
          = Inr (v3, s3)" and
    a4: "flush s3 = Inr (v4, s4)" and
    a5: "(if verbose s4 then msg env else ret PyNone) s4 = Inr (v, s')"
    unfolding automatic_fit_def bnd_Inr by blast
  have f1: "frame UNIV (if fm \<noteq> ''global_opt'' then ballpark env else ret PyNone)"
    by (auto intro: frame_mono[OF frame_ballpark] frame_ret)
  have f2: "frame UNIV (if fm \<noteq> ''grid_only''
      then bnd (estimate env) (\<lambda>_. overloaded_estimate) else ret PyNone)"
    by (auto intro!: frame_bnd frame_mono[OF frame_estimate]
          frame_mono[OF frame_overloaded_estimate] frame_ret)
  have f3: "frame UNIV (if fm \<noteq> ''grid_only''
      then bnd (rss env) (\<lambda>_. rsquared env) else ret PyNone)"
    by (auto intro!: frame_bnd frame_mono[OF frame_rss] frame_mono[OF frame_rsquared] frame_ret)
  have f5: "frame UNIV (if verbose s4 then msg env else ret PyNone)"
    by (auto intro: frame_mono[OF frame_msg] frame_ret)
  note c = frame_config[OF f1 a1] frame_config[OF f2 a2] frame_config[OF f3 a3]
    flush_config[OF a4] frame_config[OF f5 a5]
  note r = frame_runs[OF f1 a1] frame_runs[OF f2 a2] frame_runs[OF f3 a3] frame_runs[OF f5 a5]
  have "config_eq s s'"
    using c by (blast intro: config_eq_trans)
  moreover have "set (runs s) \<subseteq> set (runs s')"
    using r c(4) by auto
  ultimately show ?thesis ..
qed

text \<open>
  A constructor that returns has passed the verbosity and the assertion, has found the
  display extent and has run the nuisance function; its fit is the new fit, or what the
  automatic fit makes of it.
\<close>

lemma init_returns:
  assumes "PopulationFit_init env m dat gs bs vox num auto only fm limit nuis verb = Inr s"
  obtains vb vvb dva dat' where
    "set_verbose verb = Inr (vb, vvb)" "fm \<in> set [''2step'', ''grid_only'', ''global_opt'']"
    "screen_dva (stimulus m) = Some dva"
    "(case nuis of None \<Rightarrow> Inr dat | Some f \<Rightarrow> f dat) = Inr dat'"
    "auto \<Longrightarrow> \<exists>v. automatic_fit env fm
        (new_fit m dat dat' gs bs vox num auto only fm limit nuis vb vvb dva) = Inr (v, s)"
    "\<not> auto \<Longrightarrow> s = new_fit m dat dat' gs bs vox num auto only fm limit nuis vb vvb dva"
  using assms
  by (auto simp: PopulationFit_init_def and_then_Inr Let_def split: if_splits option.splits)

text \<open>What \<open>__init__\<close> has set when it returns, with or without the automatic fit.\<close>

lemma init_attributes:
  assumes "PopulationFit_init env m dat gs bs vox num auto only fm limit nuis verb = Inr s"
  shows "fit_method s = (if only then ''grid_only'' else fm) \<and>
         fm \<in> set [''2step'', ''grid_only'', ''global_opt''] \<and>
         (case nuis of None \<Rightarrow> Inr dat | Some f \<Rightarrow> f dat) = Inr (data s) \<and>
         model_data (model s) = Some dat \<and>
         (\<exists>dva. screen_dva (stimulus m) = Some dva \<and>
            constraints s = make_constraints limit dva) \<and>
         bounds s = bs \<and> grids s = gs \<and> Ns s = num \<and> outer_limit s = limit \<and>
         generate_prediction (model s) = generate_prediction m \<and>
         generate_ballpark_prediction (model s) = generate_ballpark_prediction m"
proof -
  from assms obtain vb vvb dva dat' where ok:
      "fm \<in> set [''2step'', ''grid_only'', ''global_opt'']"
      "screen_dva (stimulus m) = Some dva"
      "(case nuis of None \<Rightarrow> Inr dat | Some f \<Rightarrow> f dat) = Inr dat'"
      "auto \<Longrightarrow> \<exists>v. automatic_fit env fm
          (new_fit m dat dat' gs bs vox num auto only fm limit nuis vb vvb dva) = Inr (v, s)"
      "\<not> auto \<Longrightarrow> s = new_fit m dat dat' gs bs vox num auto only fm limit nuis vb vvb dva"
    by (rule init_returns) blast
  let ?s0 = "new_fit m dat dat' gs bs vox num auto only fm limit nuis vb vvb dva"
  have "config_eq ?s0 s"
  proof (cases auto)
    case True
    then show ?thesis using ok(4) automatic_fit_config by blast
  next
    case False
    then show ?thesis using ok(5) by (simp add: config_eq_refl)
  qed
  then show ?thesis
    using ok(1-3) by (simp add: config_eq_def model_config_eq_def new_fit_def)
qed

text \<open>
  C4. Every constructed fit has exactly two constraints, both without a lower bound:
  the radial distance \<open>sqrt(x[0]^2 + x[1]^2)\<close> bounded by \<open>screen_dva\<close>, and the radial
  distance minus \<open>outer_limit * x[2]\<close> bounded by \<open>screen_dva / 2\<close>. The gradient descent
  and the global search are both called with these two constraints.
\<close>

theorem fit_constraints:
  assumes "PopulationFit_init env m dat gs bs vox num auto only fm limit nuis verb = Inr s"
  shows "\<exists>dva. screen_dva (stimulus m) = Some dva \<and>
         constraints s =
           [\<lparr>cfun = radial_distance, lb = NInf, ub = dva\<rparr>,
            \<lparr>cfun = outer_distance limit, lb = NInf, ub = fdiv dva (Fin 2)\<rparr>] \<and>
         radial_distance (Fin x # Fin y # rest) = Inr (Fin (sqrt (x\<^sup>2 + y\<^sup>2))) \<and>
         outer_distance (Fin k) (Fin x # Fin y # Fin sigma # rest) =
           Inr (Fin (sqrt (x\<^sup>2 + y\<^sup>2) - k * sigma)) \<and>
         gradient_descent_get env s =
           bnd (ballpark env) (\<lambda>b s'.
             lift (gradient_descent_search env (data s') (error_function env)
                     (method_of (model s') generate_prediction) b (bounds s')
                     (make_constraints limit dva)) s') s \<and>
         global_opt_get env s =
           lift (global_search env (data s) (error_function env)
                   (method_of (model s) generate_prediction) (bounds s)
                   (make_constraints limit dva) 8 (- 1)) s"
proof -
  from init_attributes[OF assms] obtain dva where dva: "screen_dva (stimulus m) = Some dva"
      and c: "constraints s = make_constraints limit dva"
    by blast
  have same: "constraints s' = constraints s" if "ballpark env s = Inr (b, s')" for b s'
    using frame_config[OF frame_ballpark that] by (simp add: config_eq_def)
  have gd: "gradient_descent_get env s =
      bnd (ballpark env) (\<lambda>b s'.
        lift (gradient_descent_search env (data s') (error_function env)
                (method_of (model s') generate_prediction) b (bounds s')
                (make_constraints limit dva)) s') s"
    unfolding gradient_descent_get_def bnd_def
    using same c by (auto split: sum.splits)
  have go: "global_opt_get env s =
      lift (global_search env (data s) (error_function env)
              (method_of (model s) generate_prediction) (bounds s)
              (make_constraints limit dva) 8 (- 1)) s"
    by (simp add: global_opt_get_def c)
  have nonneg: "\<not> x * x + y * y < 0"
    by (simp add: not_less)
  have radial: "radial_distance (Fin x # Fin y # rest) = Inr (Fin (sqrt (x\<^sup>2 + y\<^sup>2)))"
    by (simp add: radial_distance_def power2_eq_square nonneg)
  have outer: "outer_distance (Fin k) (Fin x # Fin y # Fin sigma # rest) =
      Inr (Fin (sqrt (x\<^sup>2 + y\<^sup>2) - k * sigma))"
    by (simp add: outer_distance_def power2_eq_square fsub_def nonneg)
  show ?thesis
    using dva c gd go radial outer by (simp add: make_constraints_def)
qed

theorem fit_constraints_witness:
  "example_init False False ''2step'' None 0 = Inr (example_fit ''2step'') \<and>
   map ub (constraints (example_fit ''2step'')) = [Fin 10, Fin 5] \<and>
   map lb (constraints (example_fit ''2step'')) = [NInf, NInf] \<and>
   map (\<lambda>c. cfun c [Fin 3, Fin 4, Fin 1]) (constraints (example_fit ''2step''))
     = [Inr (Fin 5), Inr (Fin 3)]"
proof -
  have init: "PopulationFit_init example_env example_model [Fin 1, Fin 2] [Pair 0 1]
      [(None, None)] (1, 2, 3) (Some 2) False False ''2step'' (Fin 2) None 0
      = Inr (example_fit ''2step'')"
    by (simp add: run_defs example_defs)
  have root: "sqrt (3\<^sup>2 + 4\<^sup>2) = (5::real)"
    using real_sqrt_abs[of 5] by simp
  note c = fit_constraints[OF init, where x = 3 and y = 4 and rest = "[Fin 1]"]
    fit_constraints[OF init, where x = 3 and y = 4 and sigma = 1 and k = 2 and rest = "[]"]
  have dva: "screen_dva (stimulus example_model) = Some (Fin 10)"
    by (simp add: example_defs)
  from c dva root init show ?thesis
    by (simp add: example_init_def)
qed

text \<open>
  C6, the counterexample. The fit method \<open>2step\<close> is valid and \<open>auto_fit\<close> is off, yet the
  constructor raises: \<open>set_verbose\<close> has no case for \<open>verbose = 3\<close>; and with \<open>verbose\<close>
  off it raises on a model whose stimulus is a plain \<open>StimulusModel\<close>, which has no
  \<open>screen_dva\<close>.
\<close>

theorem valid_method_may_raise:
  "''2step'' \<in> set [''2step'', ''grid_only'', ''global_opt''] \<and>
   example_init False False ''2step'' None 3 = Inl UnboundLocalError \<and>
   PopulationFit_init example_env (example_model\<lparr>stimulus := StimulusModel_init [] (Fin 1)\<rparr>)
     [Fin 1, Fin 2] [Pair 0 1] [(None, None)] (1, 2, 3) (Some 2) False False ''2step'' (Fin 2)
     None 0 = Inl AttributeError"
  by (simp add: run_defs example_defs StimulusModel_init_def)

text \<open>
  C6, as amended. With \<open>verbose\<close> one of 0, 1, 2, a stimulus that has the display extent
  \<open>screen_dva\<close> and a nuisance function that, if there is one, returns on the data: the
  constructor raises the assertion error when the \<open>fit_method\<close> argument is not one of
  the three names, whatever \<open>auto_fit\<close> is, and with a valid \<open>fit_method\<close> and \<open>auto_fit\<close> off
  it returns a fit. An invalid \<open>fit_method\<close> makes the constructor raise for every
  \<open>verbose\<close>, every stimulus and every nuisance function.
\<close>

theorem init_raises_iff_invalid_method:
  assumes verb: "verb \<in> {0, 1, 2}"
      and extent: "\<exists>dva. screen_dva (stimulus m) = Some dva"
      and nuis: "\<exists>d. (case nuis of None \<Rightarrow> Inr dat | Some f \<Rightarrow> f dat) = Inr d"
  shows "(fm \<notin> set [''2step'', ''grid_only'', ''global_opt''] \<longrightarrow>
            PopulationFit_init env m dat gs bs vox num auto only fm limit nuis verb
              = Inl AssertionError \<and>
            (\<exists>e. PopulationFit_init env m' dat gs bs vox num auto only fm limit nuis' verb'
              = Inl e)) \<and>
         (fm \<in> set [''2step'', ''grid_only'', ''global_opt''] \<longrightarrow>
            (\<exists>s. PopulationFit_init env m dat gs bs vox num False only fm limit nuis verb
              = Inr s))"
proof (intro conjI impI)
  assume bad: "fm \<notin> set [''2step'', ''grid_only'', ''global_opt'']"
  have "\<exists>flags. set_verbose verb = Inr flags"
    using verb by (auto simp: set_verbose_def)
  then obtain flags where flags: "set_verbose verb = Inr flags"
    by blast
  then show "PopulationFit_init env m dat gs bs vox num auto only fm limit nuis verb
      = Inl AssertionError"
    using bad by (cases flags) (simp add: PopulationFit_init_def and_then_def)
  show "\<exists>e. PopulationFit_init env m' dat gs bs vox num auto only fm limit nuis' verb' = Inl e"
    using bad
    by (cases "set_verbose verb'")
       (auto simp: PopulationFit_init_def and_then_def split: prod.splits)
next
  assume good: "fm \<in> set [''2step'', ''grid_only'', ''global_opt'']"
  have "\<exists>flags. set_verbose verb = Inr flags"
    using verb by (auto simp: set_verbose_def)
  then obtain flags where flags: "set_verbose verb = Inr flags"
    by blast
  from extent obtain dva where dva: "screen_dva (stimulus m) = Some dva"
    by blast
  from nuis obtain d where d: "(case nuis of None \<Rightarrow> Inr dat | Some f \<Rightarrow> f dat) = Inr d"
    by blast
  show "\<exists>s. PopulationFit_init env m dat gs bs vox num False only fm limit nuis verb = Inr s"
    using good flags dva d
    by (cases flags) (simp add: PopulationFit_init_def and_then_def)
qed

theorem init_raises_iff_invalid_method_witness:
  "(0::int) \<in> {0, 1, 2} \<and> screen_dva (stimulus example_model) = Some (Fin 10) \<and>
   example_init True False ''brute'' None 0 = Inl AssertionError \<and>
   (\<exists>s. example_init False False ''global_opt'' None 0 = Inr s)"
proof -
  have verb: "(0::int) \<in> {0, 1, 2}"
    by simp
  have extent: "screen_dva (stimulus example_model) = Some (Fin 10)"
    by (simp add: example_defs)
  then have extent': "\<exists>dva. screen_dva (stimulus example_model) = Some dva"
    by blast
  have nuis: "\<exists>d. (case None of None \<Rightarrow> Inr [Fin 1, Fin 2] | Some f \<Rightarrow> f [Fin 1, Fin 2])
      = (Inr d :: error + fl list)"
    by simp
  note a = init_raises_iff_invalid_method[OF verb extent' nuis, where fm = "''brute''"
      and auto = True and only = False and env = example_env and gs = "[Pair 0 1]"
      and bs = "[(None, None)]" and vox = "(1, 2, 3)" and num = "Some 2" and limit = "Fin 2"
      and nuis' = None and verb' = 0 and m' = example_model]
  note b = init_raises_iff_invalid_method[OF verb extent' nuis, where fm = "''global_opt''"
      and auto = True and only = False and env = example_env and gs = "[Pair 0 1]"
      and bs = "[(None, None)]" and vox = "(1, 2, 3)" and num = "Some 2" and limit = "Fin 2"
      and nuis' = None and verb' = 0 and m' = example_model]
  from a b extent show ?thesis
    by (simp add: example_init_def)
qed

text \<open>
  C7, evaluated. The example fit is constructed with a nuisance function that removes
  the mean: the fit holds the processed data \<open>(-1/2, 1/2)\<close>, the model the data as they
  were passed in, \<open>(1, 2)\<close>. With the model whose prediction is the data it holds, over
  the grid \<open>{1, 2}\<close>, the ballpark of a grid-only fit comes from the processed data
  (combination 1, slope 1, intercept \<open>-3/2\<close>), its prediction is the unprocessed \<open>(1, 2)\<close>
  and the residual sum of squares against the processed data is \<open>9/2\<close>. In general
  (\<open>init_attributes\<close>) the data of the fit are the output of the nuisance function and the
  data of the model are the constructor's argument.
\<close>

theorem model_sees_unprocessed_data:
  "and_then (example_init False False ''2step'' (Some demean) 0)
     (\<lambda>s. Inr (data s, model_data (model s)))
   = Inr ([Fin (- 1 / 2), Fin (1 / 2)], Some [Fin 1, Fin 2]) \<and>
   and_then (PopulationFit_init example_env echo_model [Fin 1, Fin 2] [Pair 1 2]
       [(None, None)] (1, 2, 3) (Some 2) False False ''grid_only'' (Fin 2) (Some demean) 0)
     (\<lambda>s. and_then (rss example_env s)
        (\<lambda>r. Inr (data s, dict (snd r) ''ballpark'', dict (snd r) ''prediction'', fst r)))
   = Inr ([Fin (- 1 / 2), Fin (1 / 2)], Some (arr [Fin 1, Fin 1, Fin (- 3 / 2)]),
          Some (arr [Fin 1, Fin 2]), Num (Fin (9 / 2)))"
  by (simp add: run_defs example_defs)

section \<open>Grid-only fits\<close>

text \<open>
  What holds of a fit whose method is \<open>grid_only\<close>: a first read of \<open>prediction\<close> is the
  model's prediction function at the ballpark vector, and it runs neither the gradient
  descent nor the global search.
\<close>

lemma prediction_of_grid_only_fit:
  assumes gridonly: "fit_method s = ''grid_only''"
      and unset: "dict s ''prediction'' = None"
      and read: "prediction env s = Inr (v, s')"
  shows "\<exists>b args p t. dict s' ''ballpark'' = Some b \<and> unpack b = Inr args \<and>
           method_of (model s) generate_prediction args [] = Inr p \<and> v = arr p \<and>
           runs s' = runs s @ t \<and> ''gradient_descent'' \<notin> set t \<and> ''global_opt'' \<notin> set t"
proof -
  let ?s0 = "s\<lparr>runs := runs s @ [''prediction'']\<rparr>"
  from read unset obtain s1 where s1: "prediction_get env ?s0 = Inr (v, s1)"
      "s' = s1\<lparr>dict := (dict s1)(''prediction'' \<mapsto> v)\<rparr>"
    by (auto simp: prediction_def auto_attr_miss)
  from s1(1) gridonly obtain b args where b: "ballpark env ?s0 = Inr (b, s1)"
      "unpack b = Inr args" "to_val (method_of (model s1) generate_prediction args []) = Inr v"
    by (auto simp: prediction_get_def bnd_Inr lift_Inr)
  from b(3) obtain p where p: "method_of (model s1) generate_prediction args [] = Inr p"
      "v = arr p"
    by (auto simp: to_val_def and_then_Inr)
  have l: "later {k. field_rank k \<le> field_rank ''ballpark''} ?s0 s1"
    using frame_ballpark b(1) unfolding frame_def by blast
  then obtain t where t: "runs s1 = runs ?s0 @ t"
      "set t \<subseteq> {k. field_rank k \<le> field_rank ''ballpark''}"
    unfolding later_def by blast
  have "''gradient_descent'' \<notin> set t" "''global_opt'' \<notin> set t"
    using t(2) by (auto simp: field_rank_def)
  then have trace: "runs s' = runs s @ (''prediction'' # t) \<and>
      ''gradient_descent'' \<notin> set (''prediction'' # t) \<and>
      ''global_opt'' \<notin> set (''prediction'' # t)"
    using t(1) s1(2) by simp
  have "method_of (model s1) generate_prediction = method_of (model s) generate_prediction"
    using l by (simp add: later_def config_eq_def model_config_eq_def method_of_def)
  moreover have "dict s' ''ballpark'' = Some b"
    using auto_attr_stored[OF b(1)[unfolded ballpark_def]] s1(2) by simp
  ultimately show ?thesis
    using b(2) p trace by metis
qed

text \<open>
  A fit constructed with the argument \<open>fit_method = 'grid_only'\<close> and \<open>verbose\<close> off runs
  no refinement in its constructor.
\<close>

lemma grid_only_method_never_refines:
  assumes "PopulationFit_init env m dat gs bs vox num auto only ''grid_only'' limit nuis 0
      = Inr s"
  shows "''gradient_descent'' \<notin> set (runs s) \<and> ''global_opt'' \<notin> set (runs s)"
proof (cases auto)
  case False
  then have "runs s = []"
    using assms by (elim init_returns) (simp add: new_fit_def)
  then show ?thesis by simp
next
  case True
  from assms obtain vb vvb dva dat' where ok: "set_verbose 0 = Inr (vb, vvb)"
      "\<exists>v. automatic_fit env ''grid_only''
          (new_fit m dat dat' gs bs vox num auto only ''grid_only'' limit nuis vb vvb dva)
            = Inr (v, s)"
    using True by (elim init_returns) blast
  define s0 where
    "s0 = new_fit m dat dat' gs bs vox num auto only ''grid_only'' limit nuis vb vvb dva"
  have silent: "\<not> verbose s0" "runs s0 = []"
    using ok(1) by (auto simp: s0_def new_fit_def set_verbose_def)
  from ok(2) obtain v where fit: "automatic_fit env ''grid_only'' s0 = Inr (v, s)"
    unfolding s0_def by blast
  then obtain b s1 v2 s2 where steps: "ballpark env s0 = Inr (b, s1)" "flush s1 = Inr (v2, s2)"
      "(if verbose s2 then msg env else ret PyNone) s2 = Inr (v, s)"
    by (auto simp: automatic_fit_def bnd_Inr ret_Inr)
  have l: "later {k. field_rank k \<le> field_rank ''ballpark''} s0 s1"
    using frame_ballpark steps(1) unfolding frame_def by blast
  then obtain t where t: "runs s1 = runs s0 @ t"
      "set t \<subseteq> {k. field_rank k \<le> field_rank ''ballpark''}"
    unfolding later_def by blast
  have quiet: "\<not> verbose s2"
    using later_config[OF l] flush_config[OF steps(2)] silent(1)
    by (simp add: config_eq_def)
  then have "s = s2"
    using steps(3) by (simp add: ret_Inr)
  then have "runs s = t"
    using flush_config[OF steps(2)] t(1) silent(2) by simp
  then show ?thesis
    using t(2) by (auto simp: field_rank_def)
qed

text \<open>
  The flag \<open>grid_only\<close> sets the method of the fit to \<open>grid_only\<close>; with the default
  argument \<open>fit_method = '2step'\<close> the automatic fit of the constructor still runs the
  gradient descent, for every model, data and environment.
\<close>

lemma grid_only_flag_still_refines:
  assumes "PopulationFit_init env m dat gs bs vox num True True ''2step'' limit nuis verb
      = Inr s"
  shows "fit_method s = ''grid_only'' \<and> ''gradient_descent'' \<in> set (runs s)"
proof -
  have overridden: "fit_method s = ''grid_only''"
    using init_attributes[OF assms] by simp
  from assms obtain vb vvb dva dat' where ok:
      "\<exists>v. automatic_fit env ''2step''
          (new_fit m dat dat' gs bs vox num True True ''2step'' limit nuis vb vvb dva)
            = Inr (v, s)"
    by (elim init_returns) blast
  define s0 where
    "s0 = new_fit m dat dat' gs bs vox num True True ''2step'' limit nuis vb vvb dva"
  have start: "dict s0 = Map.empty" "fit_method s0 = ''grid_only''"
    by (simp_all add: s0_def new_fit_def)
  from ok obtain v where fit: "automatic_fit env ''2step'' s0 = Inr (v, s)"
    unfolding s0_def by blast
  then obtain b s1 e s2 oe s3 v3 s4 v4 s5 where steps:
      "ballpark env s0 = Inr (b, s1)" "estimate env s1 = Inr (e, s2)"
      "overloaded_estimate s2 = Inr (oe, s3)"
      "bnd (rss env) (\<lambda>_. rsquared env) s3 = Inr (v3, s4)"
      "flush s4 = Inr (v4, s5)"
      "(if verbose s5 then msg env else ret PyNone) s5 = Inr (v, s)"
    unfolding automatic_fit_def by (simp add: bnd_Inr) blast
  have l1: "later {k. field_rank k \<le> field_rank ''ballpark''} s0 s1"
    using frame_ballpark steps(1) unfolding frame_def by blast
  then obtain t where t: "set t \<subseteq> {k. field_rank k \<le> field_rank ''ballpark''}"
      "\<forall>k. dict s0 k = None \<longrightarrow> dict s1 k \<noteq> None \<longrightarrow> k \<in> set t"
    unfolding later_def by blast
  have fresh: "dict s1 n = None" if "field_rank ''ballpark'' < field_rank n" for n
  proof (rule ccontr)
    assume "dict s1 n \<noteq> None"
    moreover have "dict s0 n = None"
      by (simp add: start)
    ultimately have "n \<in> set t"
      using t(2) by blast
    then show False
      using t(1) that by auto
  qed
  have unset: "dict s1 ''estimate'' = None" "dict s1 ''gradient_descent'' = None"
    by (rule fresh, simp add: field_rank_def)+
  have m1: "fit_method s1 = ''grid_only''"
    using later_config[OF l1] start(2) by (simp add: config_eq_def)
  let ?s1 = "s1\<lparr>runs := runs s1 @ [''estimate'']\<rparr>"
  from steps(2) unset(1) obtain sx where sx: "estimate_get env ?s1 = Inr (e, sx)"
      "s2 = sx\<lparr>dict := (dict sx)(''estimate'' \<mapsto> e)\<rparr>"
    by (auto simp: estimate_def auto_attr_miss)
  from sx(1) m1 obtain r where r: "gradient_descent env ?s1 = Inr (r, sx)"
    by (auto simp: estimate_get_def bnd_Inr lift_Inr)
  let ?s2 = "?s1\<lparr>runs := runs ?s1 @ [''gradient_descent'']\<rparr>"
  from r unset(2) obtain sy where sy: "gradient_descent_get env ?s2 = Inr (r, sy)"
      "sx = sy\<lparr>dict := (dict sy)(''gradient_descent'' \<mapsto> r)\<rparr>"
    by (auto simp: gradient_descent_def auto_attr_miss)
  have "set (runs ?s2) \<subseteq> set (runs sy)"
    by (rule frame_runs[OF frame_gradient_descent_get sy(1)])
  then have "''gradient_descent'' \<in> set (runs s2)"
    using sx(2) sy(2) by auto
  moreover have "set (runs s2) \<subseteq> set (runs s3)"
    by (rule frame_runs[OF frame_overloaded_estimate steps(3)])
  moreover have "set (runs s3) \<subseteq> set (runs s4)"
  proof -
    have "frame UNIV (bnd (rss env) (\<lambda>_. rsquared env))"
      by (intro frame_bnd frame_mono[OF frame_rss] frame_mono[OF frame_rsquared]) simp_all
    then show ?thesis
      using steps(4) by (rule frame_runs)
  qed
  moreover have "runs s5 = runs s4"
    using flush_config[OF steps(5)] by simp
  moreover have "set (runs s5) \<subseteq> set (runs s)"
  proof -
    have "frame UNIV (if verbose s5 then msg env else ret PyNone)"
      by (auto intro: frame_mono[OF frame_msg] frame_ret)
    then show ?thesis
      using steps(6) by (rule frame_runs)
  qed
  ultimately show ?thesis
    using overridden by auto
qed

text \<open>
  C2, evaluated. The example fit is constructed with \<open>grid_only = True\<close> and the default
  \<open>fit_method = '2step'\<close>: its method is \<open>grid_only\<close>, and its constructor has run the
  estimate and the gradient descent.
\<close>

theorem grid_only_fit_runs_gradient_descent:
  "and_then (example_init True True ''2step'' None 0) (\<lambda>s. Inr (fit_method s, runs s))
   = Inr (''grid_only'',
       [''ballpark'', ''brute_force'', ''slope'', ''ballpark_prediction'', ''intercept'',
        ''estimate'', ''gradient_descent'', ''overloaded_estimate'', ''rss'', ''prediction'',
        ''rsquared''])"
  by (simp add: run_defs example_defs)

text \<open>
  C10, evaluated. Constructed with \<open>grid_only = True\<close> and \<open>fit_method = '2step'\<close>, the
  example fit has the method \<open>grid_only\<close> but holds an estimate and an R squared and has
  run the gradient descent; constructed with \<open>fit_method = 'grid_only'\<close> it has none of
  these.
\<close>

theorem grid_only_flag_differs_from_grid_only_method:
  "and_then (example_init True True ''2step'' None 0)
     (\<lambda>s. Inr (fit_method s, ''gradient_descent'' \<in> set (runs s), dict s ''estimate'',
                dict s ''rsquared''))
   = Inr (''grid_only'', True, Some (arr [Fin 1, Fin 1, Fin 0]), Some (Num (Fin 1))) \<and>
   and_then (example_init True False ''grid_only'' None 0)
     (\<lambda>s. Inr (fit_method s, ''gradient_descent'' \<in> set (runs s), dict s ''estimate'',
                dict s ''rsquared''))
   = Inr (''grid_only'', False, None, None)"
  by (simp add: run_defs example_defs)

section \<open>The model cache\<close>

lemma traverse_Inr: "traverse f xs = Inr ys \<Longrightarrow> list_all2 (\<lambda>x y. f x = Inr y) xs ys"
  by (induction xs arbitrary: ys) (auto split: sum.splits)







section \<open>The ballpark estimate\<close>

lemma fless_irrefl: "\<not> fless a a"
  by (cases a) auto

lemma fless_trans: "fless a b \<Longrightarrow> fless b c \<Longrightarrow> fless a c"
  by (cases a; cases b; cases c) auto

lemma foldl_better_in: "foldl better b xs \<in> set (b # xs)"
  by (induction xs arbitrary: b) (auto simp: better_def)

lemma foldl_better_descends:
  "foldl better b xs = b \<or> fless (snd (foldl better b xs)) (snd b)"
proof (induction xs arbitrary: b)
  case Nil
  then show ?case by simp
next
  case (Cons x xs)
  show ?case
    using Cons.IH[of "better b x"] by (auto simp: better_def intro: fless_trans)
qed

lemma foldl_better_least:
  "c \<in> set (b # xs) \<Longrightarrow> \<not> fless (snd c) (snd (foldl better b xs))"
proof (induction xs arbitrary: b)
  case Nil
  then show ?case by (simp add: fless_irrefl)
next
  case (Cons x xs)
  let ?b = "better b x"
  show ?case
  proof (cases "c \<in> set (?b # xs)")
    case True
    then show ?thesis using Cons.IH[of ?b] by simp
  next
    case False
    then have c: "c = b \<or> c = x"
      using Cons.prems by auto
    have first: "\<not> fless (snd c) (snd ?b)"
      using c by (auto simp: better_def fless_irrefl dest: fless_trans)
    show ?thesis
      using foldl_better_descends[of ?b xs] first by (auto dest: fless_trans)
  qed
qed

lemma traverse_length: "traverse f xs = Inr ys \<Longrightarrow> length ys = length xs"
  by (induction xs arbitrary: ys) (auto split: sum.splits)

lemma parameter_space_length:
  assumes "parameter_space gs num = Inr params"
  shows "length params = length gs"
proof (cases gs)
  case Nil
  then show ?thesis using assms by (simp add: parameter_space_def)
next
  case (Cons g rest)
  then have "traverse slice_range gs = Inr params \<or> traverse (pair_range num) gs = Inr params"
    using assms by (simp add: parameter_space_def del: traverse.simps split: if_splits)
  then show ?thesis
    by (auto dest: traverse_length)
qed

lemma list_all2_right: "list_all2 P xs ys \<Longrightarrow> y \<in> set ys \<Longrightarrow> \<exists>x \<in> set xs. P x y"
  by (induction rule: list_all2_induct) auto

lemma list_all2_left: "list_all2 P xs ys \<Longrightarrow> x \<in> set xs \<Longrightarrow> \<exists>y \<in> set ys. P x y"
  by (induction rule: list_all2_induct) auto

lemma combos_of_length: "c \<in> set (combos_of params) \<Longrightarrow> length c = length params"
  by (auto simp: combos_of_def in_set_product_lists_length)

lemma score_combo: "score errf dat objective c = Inr y \<Longrightarrow> fst y = c"
  by (auto simp: score_def and_then_Inr)

text \<open>
  The brute-force search returns a combination of the sampled grid and its error; no
  combination of the grid has a smaller error.
\<close>

lemma brute_force_search_least:
  assumes "brute_force_search dat errf objective gs num = Inr r"
  shows "\<exists>params x0 e0. parameter_space gs num = Inr params \<and> r = Seq [arr x0, Num e0] \<and>
           x0 \<in> set (combos_of params) \<and> length x0 = length gs \<and>
           score errf dat objective x0 = Inr (x0, e0) \<and>
           (\<forall>c \<in> set (combos_of params).
              \<exists>e. score errf dat objective c = Inr (c, e) \<and> \<not> fless e e0)"
proof -
  from assms obtain params scored where p: "parameter_space gs num = Inr params"
      and t: "traverse (score errf dat objective) (combos_of params) = Inr scored"
      and r: "(case scored of [] \<Rightarrow> Inl ValueError
               | first # rest \<Rightarrow>
                   (case foldl better first rest of (combo, e) \<Rightarrow> Inr (Seq [arr combo, Num e])))
              = Inr r"
    by (auto simp: brute_force_search_def and_then_Inr)
  from r obtain first rest where scored: "scored = first # rest"
    by (cases scored) auto
  obtain x0 e0 where win: "foldl better first rest = (x0, e0)"
    by (cases "foldl better first rest") auto
  have res: "r = Seq [arr x0, Num e0]"
    using r scored win by simp
  have all: "list_all2 (\<lambda>c y. score errf dat objective c = Inr y) (combos_of params) scored"
    using t by (rule traverse_Inr)
  have "(x0, e0) \<in> set scored"
    using foldl_better_in[of first rest] win scored by simp
  then obtain c0 where c0: "c0 \<in> set (combos_of params)"
      "score errf dat objective c0 = Inr (x0, e0)"
    using list_all2_right[OF all] by blast
  have "c0 = x0"
    using score_combo[OF c0(2)] by simp
  have least: "\<exists>e. score errf dat objective c = Inr (c, e) \<and> \<not> fless e e0"
    if "c \<in> set (combos_of params)" for c
  proof -
    from that obtain y where y: "y \<in> set scored" "score errf dat objective c = Inr y"
      using list_all2_left[OF all] by blast
    have "\<not> fless (snd y) (snd (foldl better first rest))"
      using foldl_better_least[of y first rest] y(1) scored by simp
    moreover have "y = (c, snd y)"
      using score_combo[OF y(2)] by (cases y) simp
    ultimately show ?thesis
      using y(2) win by (metis snd_conv)
  qed
  have "length x0 = length gs"
    using c0(1) \<open>c0 = x0\<close> combos_of_length parameter_space_length[OF p] by simp
  then show ?thesis
    using p res c0 \<open>c0 = x0\<close> least by blast
qed

lemma as_floats_map_Num [simp]: "as_floats (map Num xs) = Inr xs"
  by (induction xs) auto

text \<open>
  The other paths. On a fit that has not yet stored the ballpark or one of the fields it
  is made of, and whose model has no cache path, the ballpark vector under \<open>global_opt\<close>
  is \<open>None\<close>, as many times as the signature of the ballpark method has parameters, plus
  two. Under the other methods it is a combination of the sampled grid of least error (no
  combination has an error that compares less), followed by the slope and the intercept
  of the regression of the ballpark prediction at that combination against the data; it
  has as many entries as the grid has dimensions, plus two.
\<close>

lemma ballpark_default_path:
  assumes fresh: "dict s ''ballpark'' = None" "dict s ''brute_force'' = None"
        "dict s ''ballpark_prediction'' = None" "dict s ''slope'' = None"
        "dict s ''intercept'' = None"
      and uncached: "cached_model_path (model s) = None"
      and read: "ballpark env s = Inr (v, s')"
  shows "(fit_method s = ''global_opt'' \<longrightarrow>
            v = Seq (replicate (ballpark_signature_len (model s) + 2) PyNone)) \<and>
         (fit_method s \<noteq> ''global_opt'' \<longrightarrow>
            (\<exists>params x0 e0 bp sl ic.
               parameter_space (grids s) (Ns s) = Inr params \<and>
               x0 \<in> set (combos_of params) \<and>
               score (error_function env) (data s)
                 (method_of (model s) generate_ballpark_prediction) x0 = Inr (x0, e0) \<and>
               (\<forall>c \<in> set (combos_of params).
                  \<exists>e. score (error_function env) (data s)
                         (method_of (model s) generate_ballpark_prediction) c = Inr (c, e) \<and>
                      \<not> fless e e0) \<and>
               method_of (model s) generate_ballpark_prediction (map Num x0 @ [arr (data s)])
                 [(''unscaled'', PyBool True)] = Inr bp \<and>
               regress env (model s) bp (data s) = Inr (sl, ic) \<and>
               v = arr (x0 @ [sl, ic]) \<and> length (x0 @ [sl, ic]) = length (grids s) + 2))"
proof (cases "fit_method s = ''global_opt''")
  case True
  then have "v = Seq (replicate (ballpark_signature_len (model s) + 2) PyNone)"
    using read fresh by (auto simp: ballpark_def ballpark_get_def auto_attr_def ret_def)
  then show ?thesis
    using True by simp
next
  case False
  let ?search = "brute_force_search (data s) (error_function env)
      (method_of (model s) generate_ballpark_prediction) (grids s) (Ns s)"
  obtain r where r: "?search = Inr r"
    using read fresh uncached False
    by (cases ?search)
       (auto simp: ballpark_def ballpark_get_def auto_attr_def bnd_def brute_force_def
          brute_force_get_def lift_def)
  from brute_force_search_least[OF r] obtain params x0 e0 where
    least: "parameter_space (grids s) (Ns s) = Inr params" "r = Seq [arr x0, Num e0]"
      "x0 \<in> set (combos_of params)" "length x0 = length (grids s)"
      "score (error_function env) (data s)
         (method_of (model s) generate_ballpark_prediction) x0 = Inr (x0, e0)"
      "\<forall>c \<in> set (combos_of params).
         \<exists>e. score (error_function env) (data s)
                (method_of (model s) generate_ballpark_prediction) c = Inr (c, e) \<and>
             \<not> fless e e0"
    by blast
  let ?call = "method_of (model s) generate_ballpark_prediction (map Num x0 @ [arr (data s)])
      [(''unscaled'', PyBool True)]"
  note unfold = ballpark_def ballpark_get_def auto_attr_def bnd_def brute_force_def
    brute_force_get_def lift_def ret_def slope_def slope_get_def intercept_def
    intercept_get_def ballpark_prediction_def ballpark_prediction_get_def to_val_def
    and_then_def arr_def
  obtain bp where bp: "?call = Inr bp"
    using read fresh uncached False r least(2)
    by (cases ?call) (auto simp: unfold)
  obtain sl ic where reg: "regress env (model s) bp (data s) = Inr (sl, ic)"
    using read fresh uncached False r least(2) bp
    by (cases "regress env (model s) bp (data s)") (auto simp: unfold)
  have v: "v = arr (x0 @ [sl, ic])"
    using read fresh uncached False r least(2) bp reg
    by (auto simp: unfold)
  have len: "length (x0 @ [sl, ic]) = length (grids s) + 2"
    using least(4) by simp
  show ?thesis
    using False least bp reg v len by auto
qed


lemma ballpark_default_path_example:
  "\<exists>s' s''.
     ballpark example_env (example_fit ''2step'') = Inr (arr ([Fin 1] @ [Fin 1, Fin 0]), s') \<and>
     score squared_error [Fin 1, Fin 2] (line_ballpark (Some [Fin 1, Fin 2])) [Fin 1]
       = Inr ([Fin 1], Fin 0) \<and>
     score squared_error [Fin 1, Fin 2] (line_ballpark (Some [Fin 1, Fin 2])) [Fin 0]
       = Inr ([Fin 0], Fin 5) \<and>
     regress example_env example_model [Fin 1, Fin 2] [Fin 1, Fin 2] = Inr (Fin 1, Fin 0) \<and>
     ballpark example_env (example_fit ''global_opt'') = Inr (Seq (replicate (3 + 2) PyNone), s'')"
proof -
  have "\<exists>s'. ballpark example_env (example_fit ''2step'')
      = Inr (arr ([Fin 1] @ [Fin 1, Fin 0]), s')"
    by (simp add: run_defs example_defs)
  then obtain s' where
    first: "ballpark example_env (example_fit ''2step'') = Inr (arr ([Fin 1] @ [Fin 1, Fin 0]), s')"
    by blast
  have "\<exists>v s''. ballpark example_env (example_fit ''global_opt'') = Inr (v, s'')"
    by (simp add: run_defs example_defs)
  then obtain v s'' where
    second: "ballpark example_env (example_fit ''global_opt'') = Inr (v, s'')"
    by blast
  have fresh: "dict (example_fit name) k = None" for name k
    by (simp add: example_fit_def)
  have uncached: "cached_model_path (model (example_fit name)) = None" for name
    by (simp add: example_defs)
  note a = ballpark_default_path[OF fresh fresh fresh fresh fresh uncached first]
  note b = ballpark_default_path[OF fresh fresh fresh fresh fresh uncached second]
  have "v = Seq (replicate (3 + 2) PyNone)"
    using b by (simp add: example_defs)
  moreover have
    "score squared_error [Fin 1, Fin 2] (line_ballpark (Some [Fin 1, Fin 2])) [Fin 1]
       = Inr ([Fin 1], Fin 0)"
    "score squared_error [Fin 1, Fin 2] (line_ballpark (Some [Fin 1, Fin 2])) [Fin 0]
       = Inr ([Fin 0], Fin 5)"
    by (simp_all add: score_def run_defs example_defs)
  moreover have "regress example_env example_model [Fin 1, Fin 2] [Fin 1, Fin 2]
      = Inr (Fin 1, Fin 0)"
    by (simp add: run_defs example_defs)
  ultimately show ?thesis
    using first second a by blast
qed

text \<open>
  C1, evaluated. The example model has one free parameter: the fit is constructed over a
  grid and bounds of one dimension, so that a ballpark vector of (free parameters) + 2
  entries has three. The ballpark method of the model takes the free parameter, the data
  and \<open>unscaled\<close>, as the call in \<open>ballpark_prediction\<close> requires, and its signature has
  these three parameters. Constructed with \<open>fit_method = 'global_opt'\<close>, the fit has a
  ballpark vector of five entries.
\<close>

theorem global_opt_ballpark_counts_signature:
  "and_then (example_init False False ''global_opt'' None 0)
     (\<lambda>s. and_then (ballpark example_env s)
        (\<lambda>r. Inr (fit_method s, length (grids s), length (bounds s),
                  method_of (model s) generate_ballpark_prediction
                    [Num (Fin 1), arr (data s)] [(''unscaled'', PyBool True)],
                  ballpark_signature_len (model s), fst r)))
   = Inr (''global_opt'', 1, 1, Inr [Fin 1, Fin 2], 3,
          Seq [PyNone, PyNone, PyNone, PyNone, PyNone])"
  by (simp add: run_defs example_defs)

end
